theory Spec2Isabelle
  imports Main "HOL-Library.Sublist" "HOL-Library.Char_ord" "HOL-Library.List_Lexorder"
    "HOL-Library.Multiset"
begin

section \<open>xssh: an SSH multi-host command executor\<close>

text \<open>
  A shallow embedding of \<^verbatim>\<open>Linux/xssh.py\<close>. Python strings are \<open>string\<close> (ASCII
  text), the module's global variables are the fields of a record that
  \<open>validate_input\<close> builds, \<^verbatim>\<open>sys.exit\<close> is the left summand of a sum type, and
  everything the script reads from its environment (the SSH configuration file, the
  remote hosts, the FIFO paths, the order of a directory listing) is a parameter.
  Logging (\<open>setup_logging\<close>, \<open>log\<close>, \<open>validate_prerequisites\<close>) leaves no trace in
  what the functions return or print on the standard output, and is left out.
\<close>

subsection \<open>Python's string operations\<close>

text \<open>\<^verbatim>\<open>sep.join(xs)\<close>.\<close>

fun join :: "string \<Rightarrow> string list \<Rightarrow> string" where
  "join sep [] = []"
| "join sep [x] = x"
| "join sep (x # y # ys) = x @ sep @ join sep (y # ys)"

text \<open>\<^verbatim>\<open>needle in hay\<close> on strings: \<open>needle\<close> occurs as a contiguous piece.\<close>

definition contains :: "string \<Rightarrow> string \<Rightarrow> bool" where
  "contains needle hay = sublist needle hay"

text \<open>
  \<^verbatim>\<open>s.lower()\<close> on ASCII text: the letters A to Z (codes 65 to 90) move to a to z
  (codes 97 to 122). Adding 32 to a code in that range sets its bit 5, which is clear
  there.
\<close>

definition lower_char :: "char \<Rightarrow> char" where
  "lower_char c =
     (if CHR ''A'' \<le> c \<and> c \<le> CHR ''Z''
      then (case c of Char b0 b1 b2 b3 b4 b5 b6 b7 \<Rightarrow> Char b0 b1 b2 b3 b4 True b6 b7)
      else c)"

definition lower :: "string \<Rightarrow> string" where
  "lower s = map lower_char s"

text \<open>\<^verbatim>\<open>s.startswith(p)\<close>.\<close>

definition startswith :: "string \<Rightarrow> string \<Rightarrow> bool" where
  "startswith s p = prefix p s"

text \<open>
  \<^verbatim>\<open>s.replace(old, new)\<close> for a non-empty \<open>old\<close>: every occurrence, left to right,
  without overlap. The counter is the number of characters of a replaced occurrence that
  are still to be skipped.
\<close>

fun replace_from :: "string \<Rightarrow> string \<Rightarrow> nat \<Rightarrow> string \<Rightarrow> string" where
  "replace_from old new k [] = []"
| "replace_from old new (Suc k) (c # cs) = replace_from old new k cs"
| "replace_from old new 0 (c # cs) =
     (if prefix old (c # cs) then new @ replace_from old new (length old - 1) cs
      else c # replace_from old new 0 cs)"

definition replace :: "string \<Rightarrow> string \<Rightarrow> string \<Rightarrow> string" where
  "replace s old new = replace_from old new 0 s"

subsection \<open>Process substitution\<close>

text \<open>
  \<^verbatim>\<open>re.findall(r"<(\([^()]*\))", cmd)\<close>: at a \<open><\<close> that is followed by an opening
  parenthesis, any number of characters that are not parentheses and a closing
  parenthesis, the group from the opening to the closing parenthesis is a match, and the
  search goes on behind it.
\<close>

definition not_paren :: "char \<Rightarrow> bool" where
  "not_paren c = (c \<noteq> CHR ''('' \<and> c \<noteq> CHR '')'')"

fun match_at :: "string \<Rightarrow> string option" where
  "match_at (a # b # r) =
     (if a = CHR ''<'' \<and> b = CHR ''(''
      then (case dropWhile not_paren r of
              [] \<Rightarrow> None
            | c # _ \<Rightarrow> if c = CHR '')'' then Some (''('' @ takeWhile not_paren r @ '')'')
                       else None)
      else None)"
| "match_at _ = None"

fun findall_from :: "nat \<Rightarrow> string \<Rightarrow> string list" where
  "findall_from k [] = []"
| "findall_from (Suc k) (c # cs) = findall_from k cs"
| "findall_from 0 (c # cs) =
     (case match_at (c # cs) of
        None \<Rightarrow> findall_from 0 cs
      | Some m \<Rightarrow> m # findall_from (length m) cs)"

definition findall :: "string \<Rightarrow> string list" where
  "findall cmd = findall_from 0 cmd"

text \<open>
  \<open>handle_process_substitution\<close>: for the \<open>i\<close>-th match, \<open>create_subprocess\<close> makes a
  FIFO and returns its path (the parameter \<open>mkfifo i m\<close>: the path holds the process id
  and the identity of the match object), and every occurrence of \<^verbatim>\<open>"<(" + match + ")"\<close>
  in the command is replaced by that path. Making the FIFO and starting the thread
  that feeds it are taken to succeed; of the two, only the path enters the command.
\<close>

fun substitute :: "(nat \<Rightarrow> string \<Rightarrow> string) \<Rightarrow> nat \<Rightarrow> string list \<Rightarrow> string \<Rightarrow> string" where
  "substitute mkfifo i [] cmd = cmd"
| "substitute mkfifo i (m # ms) cmd =
     substitute mkfifo (Suc i) ms (replace cmd (''<('' @ m @ '')'') (mkfifo i m))"

definition handle_process_substitution :: "(nat \<Rightarrow> string \<Rightarrow> string) \<Rightarrow> string \<Rightarrow> string" where
  "handle_process_substitution mkfifo cmd = substitute mkfifo 0 (findall cmd) cmd"

subsection \<open>Remote command wrapping\<close>

definition metachars :: string where
  "metachars = ''&|;><$(){}[]*''"

definition has_metachar :: "string \<Rightarrow> bool" where
  "has_metachar s = list_ex (\<lambda>ch. ch \<in> set s) metachars"

definition quote :: "string \<Rightarrow> string" where
  "quote c = CHR 0x27 # c @ [CHR 0x27]"

definition wrap_remote_command :: "(nat \<Rightarrow> string \<Rightarrow> string) \<Rightarrow> bool \<Rightarrow> string list \<Rightarrow> string" where
  "wrap_remote_command mkfifo sudo command =
     (if command = [] then []
      else
        let cmd_str = handle_process_substitution mkfifo (join '' '' command) in
        if length command = 1 then (if sudo then ''sudo '' @ cmd_str else cmd_str)
        else if has_metachar cmd_str \<or> length command > 1 then
          (let quoted_cmd = join '' '' (map quote command) in
           if sudo then ''sudo sh -c '' @ quoted_cmd else ''sh -c '' @ quoted_cmd)
        else if sudo then ''sudo '' @ cmd_str
        else cmd_str)"

subsection \<open>Errors\<close>

text \<open>
  The ways a run ends early. The first three are the script's \<^verbatim>\<open>sys.exit(1)\<close> calls:
  in \<open>validate_input\<close>, in \<open>validate_command\<close> (with the forbidden word found) and
  in \<open>extract_hosts\<close> (with the hosts found). The last three are Python's exceptions
  for an index out of range, for opening a file that does not exist and for removing a
  directory that is not empty; nothing catches them, and the interpreter then ends with
  status 1 as well.
\<close>

datatype error =
    MassRequiresCommand
  | RestrictedCommand string
  | AmbiguousHost "string list"
  | IndexError
  | FileNotFoundError string
  | DirectoryNotEmpty

fun exit_code_of :: "error \<Rightarrow> int" where
  "exit_code_of MassRequiresCommand = 1"
| "exit_code_of (RestrictedCommand cmd) = 1"
| "exit_code_of (AmbiguousHost hosts) = 1"
| "exit_code_of IndexError = 1"
| "exit_code_of (FileNotFoundError f) = 1"
| "exit_code_of DirectoryNotEmpty = 1"

subsection \<open>More string operations\<close>

text \<open>The ASCII characters for which \<^verbatim>\<open>str.isspace\<close> holds.\<close>

definition is_space :: "char \<Rightarrow> bool" where
  "is_space c = (c \<in> set [CHR 0x09, CHR 0x0A, CHR 0x0B, CHR 0x0C, CHR 0x0D,
                            CHR 0x1C, CHR 0x1D, CHR 0x1E, CHR 0x1F, CHR 0x20])"

text \<open>\<^verbatim>\<open>s.strip()\<close>.\<close>

definition strip :: "string \<Rightarrow> string" where
  "strip s = rev (dropWhile is_space (rev (dropWhile is_space s)))"

text \<open>
  \<^verbatim>\<open>s.split()\<close>: the maximal runs of characters that are not whitespace. The first
  argument is the word read so far.
\<close>

fun split_from :: "string \<Rightarrow> string \<Rightarrow> string list" where
  "split_from w [] = (if w = [] then [] else [w])"
| "split_from w (c # cs) =
     (if is_space c then (if w = [] then split_from [] cs else w # split_from [] cs)
      else split_from (w @ [c]) cs)"

definition split_ws :: "string \<Rightarrow> string list" where
  "split_ws s = split_from [] s"

text \<open>\<^verbatim>\<open>s.split(d)\<close> for a one-character separator: never empty.\<close>

fun split_on :: "char \<Rightarrow> string \<Rightarrow> string list" where
  "split_on d [] = [[]]"
| "split_on d (c # cs) =
     (if c = d then [] # split_on d cs
      else (case split_on d cs of
              [] \<Rightarrow> [[c]]
            | w # ws \<Rightarrow> (c # w) # ws))"

subsection \<open>The host registry\<close>

text \<open>
  The three variables of the parsing loop in \<open>extract_hosts\<close>. \<open>hostnames\<close> is the
  dictionary from alias to address; \<open>hosts_set\<close> is the set of aliases, kept as a list
  without duplicates (\<open>List.insert\<close> is \<^verbatim>\<open>set.add\<close>). The order of that list is of no
  consequence: the only use of the set is to be sorted by a key that is different for
  different aliases.
\<close>

record registry =
  current_host :: string
  hostnames :: "string \<rightharpoonup> string"
  hosts_set :: "string list"

definition empty_registry :: registry where
  "empty_registry = \<lparr>current_host = [], hostnames = Map.empty, hosts_set = []\<rparr>"

text \<open>The loop over \<^verbatim>\<open>parts[1:]\<close> of a \<open>Host\<close> line.\<close>

fun host_aliases :: "string list \<Rightarrow> registry \<Rightarrow> registry" where
  "host_aliases [] reg = reg"
| "host_aliases (h # hs) reg =
     host_aliases hs
       (if CHR ''*'' \<in> set h then reg
        else reg\<lparr>current_host := h, hosts_set := List.insert h (hosts_set reg)\<rparr>)"

text \<open>One iteration of the loop over the lines of the configuration file.\<close>

definition parse_line :: "string \<Rightarrow> registry \<Rightarrow> error + registry" where
  "parse_line raw reg =
     (let line = strip raw in
      if line = [] \<or> startswith line ''#'' then Inr reg
      else if startswith line ''Host '' then Inr (host_aliases (drop 1 (split_ws line)) reg)
      else if startswith line ''Hostname '' then
        (if current_host reg \<noteq> [] then
           (case split_ws line of
              _ # address # _ \<Rightarrow>
                Inr (reg\<lparr>hostnames := (hostnames reg)(current_host reg \<mapsto> address)\<rparr>)
            | _ \<Rightarrow> Inl IndexError)
         else Inr reg)
      else Inr reg)"

fun parse_lines :: "string list \<Rightarrow> registry \<Rightarrow> error + registry" where
  "parse_lines [] reg = Inr reg"
| "parse_lines (l # ls) reg =
     (case parse_line l reg of
        Inl e \<Rightarrow> Inl e
      | Inr reg' \<Rightarrow> parse_lines ls reg')"

subsection \<open>Host resolution\<close>

text \<open>\<^verbatim>\<open>USERNAME, host_pattern = host_pattern.split("@", 1)\<close> when the pattern holds an \<open>@\<close>.\<close>

definition split_user :: "string \<Rightarrow> string \<times> string" where
  "split_user pat =
     (if CHR ''@'' \<in> set pat
      then (takeWhile (\<lambda>c. c \<noteq> CHR ''@'') pat, drop 1 (dropWhile (\<lambda>c. c \<noteq> CHR ''@'') pat))
      else ([], pat))"

text \<open>The test of the matching loop: \<^verbatim>\<open>host_pattern.lower() in host.lower() and "*" not in host\<close>.\<close>

definition host_matches :: "string \<Rightarrow> string \<Rightarrow> bool" where
  "host_matches host_pattern host =
     (contains (lower host_pattern) (lower host) \<and> CHR ''*'' \<notin> set host)"

text \<open>\<^verbatim>\<open>hostnames.get(host, host)\<close>.\<close>

definition address_of :: "(string \<rightharpoonup> string) \<Rightarrow> string \<Rightarrow> string" where
  "address_of hn host = (case hn host of None \<Rightarrow> host | Some a \<Rightarrow> a)"

text \<open>
  The matching loop over the sorted aliases; the state is the pair of \<open>HOSTS\<close> and
  \<open>printed\<close>.
\<close>

fun match_loop :: "string \<Rightarrow> (string \<rightharpoonup> string) \<Rightarrow> string list
    \<Rightarrow> string list \<times> string set \<Rightarrow> string list \<times> string set" where
  "match_loop host_pattern hn [] (hosts, printed) = (hosts, printed)"
| "match_loop host_pattern hn (host # rest) (hosts, printed) =
     (if host_matches host_pattern host then
        (let hostname = address_of hn host in
         if hostname \<notin> printed
         then match_loop host_pattern hn rest (hosts @ [hostname], insert hostname printed)
         else match_loop host_pattern hn rest (hosts, printed))
      else match_loop host_pattern hn rest (hosts, printed))"

text \<open>\<^verbatim>\<open>sorted(hosts_set, key=lambda x: x.split("."))\<close>: lists of segments compare
  lexicographically, segments compare as strings, characters by their codes.\<close>

definition sorted_hosts :: "string list \<Rightarrow> string list" where
  "sorted_hosts hs = sort_key (split_on CHR ''.'') hs"

text \<open>
  The hosts found in the configuration file (\<open>None\<close>: there is no such file), before
  the checks on their number.
\<close>

definition matching_hosts :: "string \<Rightarrow> string list option \<Rightarrow> error + string list" where
  "matching_hosts host_pattern config =
     (case config of
        None \<Rightarrow> Inr []
      | Some lines \<Rightarrow>
          (case parse_lines lines empty_registry of
             Inl e \<Rightarrow> Inl e
           | Inr reg \<Rightarrow>
               Inr (fst (match_loop host_pattern (hostnames reg)
                      (sorted_hosts (hosts_set reg)) ([], {})))))"

text \<open>
  \<open>extract_hosts\<close> reads the globals \<open>PATTERN\<close> and \<open>MASS_MODE\<close> and the
  configuration file, and sets \<open>USERNAME\<close> and \<open>HOSTS\<close>: the pair it returns here.
\<close>

definition extract_hosts :: "string \<Rightarrow> bool \<Rightarrow> string list option \<Rightarrow> error + string \<times> string list" where
  "extract_hosts pat mass config =
     (case split_user pat of
        (username, host_pattern) \<Rightarrow>
          (case matching_hosts host_pattern config of
             Inl e \<Rightarrow> Inl e
           | Inr hosts \<Rightarrow>
               if length hosts > 1 \<and> \<not> mass then Inl (AmbiguousHost hosts)
               else if hosts = [] then Inr (username, [host_pattern])
               else Inr (username, hosts)))"

text \<open>
  The resolution rule in the specification's words: the aliases that match, in sorted
  order, mapped to their addresses, each address kept where it occurs first.
\<close>

definition dedup_first :: "'a list \<Rightarrow> 'a list" where
  "dedup_first xs = rev (remdups (rev xs))"

definition resolve_spec :: "string \<Rightarrow> (string \<rightharpoonup> string) \<Rightarrow> string list \<Rightarrow> string list" where
  "resolve_spec host_pattern hn aliases =
     dedup_first
       (map (address_of hn)
          (filter (\<lambda>a. contains (lower host_pattern) (lower a)) (sorted_hosts aliases)))"

subsection \<open>Input validation\<close>

text \<open>The namespace that \<open>parse_arguments\<close> returns.\<close>

record args =
  arg_debug :: bool
  arg_verbose :: bool
  arg_x11 :: bool
  arg_port :: "string option"
  arg_local_forward :: "string option"
  arg_dynamic_forward :: "string option"
  arg_log_file :: "string option"
  arg_mass :: bool
  arg_sudo :: bool
  arg_pattern :: string
  arg_command :: "string list"

text \<open>The global variables that \<open>validate_input\<close> assigns.\<close>

record globals =
  MASS_MODE :: bool
  SUDO_MODE :: bool
  DEBUG_MODE :: bool
  VERBOSE_MODE :: bool
  LOG_FILE :: string
  PATTERN :: string
  COMMAND :: "string list"
  SSH_OPTIONS :: "string list"

definition forbidden_commands :: "string list" where
  "forbidden_commands = [''shutdown'', ''poweroff'', ''reboot'']"

text \<open>The loop of \<open>validate_command\<close>: the first forbidden word found ends the run.\<close>

fun check_forbidden :: "string list \<Rightarrow> string \<Rightarrow> error + unit" where
  "check_forbidden [] cmd_str = Inr ()"
| "check_forbidden (cmd # rest) cmd_str =
     (if contains cmd cmd_str then Inl (RestrictedCommand cmd)
      else check_forbidden rest cmd_str)"

definition validate_command :: "string list \<Rightarrow> error + unit" where
  "validate_command command = check_forbidden forbidden_commands (join '' '' command)"

text \<open>An option that is given and not the empty string adds its flag and its value.\<close>

definition ssh_option :: "string \<Rightarrow> string option \<Rightarrow> string list" where
  "ssh_option flag v =
     (case v of
        None \<Rightarrow> []
      | Some x \<Rightarrow> if x = [] then [] else [flag, x])"

definition validate_input :: "args \<Rightarrow> error + globals" where
  "validate_input a =
     (let g = \<lparr>MASS_MODE = arg_mass a,
                SUDO_MODE = arg_sudo a,
                DEBUG_MODE = arg_debug a,
                VERBOSE_MODE = arg_verbose a,
                LOG_FILE = (case arg_log_file a of None \<Rightarrow> [] | Some f \<Rightarrow> f),
                PATTERN = arg_pattern a,
                COMMAND = arg_command a,
                SSH_OPTIONS = (if arg_x11 a then [''-X''] else [])
                  @ ssh_option ''-p'' (arg_port a)
                  @ ssh_option ''-L'' (arg_local_forward a)
                  @ ssh_option ''-D'' (arg_dynamic_forward a)\<rparr>
      in
      if MASS_MODE g \<and> COMMAND g = [] then Inl MassRequiresCommand
      else if MASS_MODE g \<and> COMMAND g \<noteq> [] then
        (case validate_command (COMMAND g) of
           Inl e \<Rightarrow> Inl e
         | Inr u \<Rightarrow> Inr g)
      else Inr g)"

subsection \<open>The environment\<close>

text \<open>
  What a remote session does. \<open>ssh.connect\<close> raises (\<open>ConnectError\<close> with the text of
  the exception) or gives a session; running a command in a session, with or without a
  pseudo-terminal, raises (\<open>ExecError\<close>: \<open>exec_command\<close>, reading or decoding the
  streams) or gives the standard output, the standard error and the exit status.
\<close>

datatype exec_result = ExecError string | ExecDone string string int

datatype connect_result = ConnectError string | Session "string \<Rightarrow> bool \<Rightarrow> exec_result"

text \<open>
  \<open>env_config\<close>: the lines of the SSH configuration file (\<open>None\<close>: no such file).
  \<open>env_remote host username\<close>: the connection to a host, the user name empty when none
  is given. \<open>env_mkfifo host\<close>: the paths of the FIFOs made for the execution on a
  host. \<open>env_listdir\<close>: the order in which
  \<^verbatim>\<open>os.listdir\<close> returns the names of a directory that holds the given files; Python
  promises no order. \<open>env_usage\<close>: the text that \<open>usage\<close> prints, which holds the name
  of the script file.
\<close>

record env =
  env_config :: "string list option"
  env_remote :: "string \<Rightarrow> string \<Rightarrow> connect_result"
  env_mkfifo :: "string \<Rightarrow> nat \<Rightarrow> string \<Rightarrow> string"
  env_listdir :: "string list \<Rightarrow> string list"
  env_usage :: string

text \<open>
  What a run does to the outside: the hosts on which \<open>ssh.connect\<close> was called, and
  the pieces of text written to the standard output, both in order.
\<close>

record world =
  connections :: "string list"
  printed :: "string list"

definition initial_world :: world where
  "initial_world = \<lparr>connections = [], printed = []\<rparr>"

subsection \<open>Execution on one host\<close>

definition newline :: string where
  "newline = [CHR 0x0A]"

text \<open>
  Writing to the output file: \<open>None\<close> is a file that was never opened, \<open>Some s\<close> a file
  that holds \<open>s\<close>. File operations are taken to succeed.
\<close>

definition append_file :: "string option \<Rightarrow> string \<Rightarrow> string option" where
  "append_file f s = (case f of None \<Rightarrow> Some s | Some t \<Rightarrow> Some (t @ s))"

text \<open>What the handler of exceptions writes to the output file.\<close>

definition connection_failed :: "string \<Rightarrow> string \<Rightarrow> string" where
  "connection_failed host x = ''Connection failed on '' @ host @ '': '' @ x @ newline"

text \<open>
  \<open>execute_ssh\<close> returns its exit code; the second component is what it has written
  to its output file. \<open>USERNAME\<close> is the global that \<open>extract_hosts\<close> has set.
\<close>

definition execute_ssh :: "globals \<Rightarrow> string \<Rightarrow> env \<Rightarrow> string \<Rightarrow> string \<Rightarrow> int \<times> string option" where
  "execute_ssh g username e host verbose_prefix =
     (let f0 = (if VERBOSE_MODE g \<and> verbose_prefix \<noteq> [] then Some (verbose_prefix @ newline)
                else None)
      in
      case env_remote e host username of
        ConnectError x \<Rightarrow>
          (1, append_file f0 (connection_failed host x))
      | Session run \<Rightarrow>
          (let remote_cmd = wrap_remote_command (env_mkfifo e host) (SUDO_MODE g) (COMMAND g) in
           if remote_cmd \<noteq> [] then
             (case run remote_cmd (SUDO_MODE g) of
                ExecError x \<Rightarrow>
                  (1, append_file f0 (connection_failed host x))
              | ExecDone out err exit_status \<Rightarrow>
                  (let output = out @ err; f1 = append_file f0 output in
                   if exit_status \<noteq> 0 then (exit_status, f1)
                   else if contains ''error'' (lower output) \<or> contains ''not found'' (lower output)
                   then (127, f1)
                   else (0, f1)))
           else (1, f0)))"

subsection \<open>Execution on all hosts\<close>

text \<open>
  \<open>execute_ssh_command\<close>: one host after the other, each writing to the standard
  output.
\<close>

fun execute_ssh_command :: "globals \<Rightarrow> string \<Rightarrow> env \<Rightarrow> string list \<Rightarrow> world \<Rightarrow> world" where
  "execute_ssh_command g username e [] w = w"
| "execute_ssh_command g username e (host # rest) w =
     execute_ssh_command g username e rest
       (w\<lparr>connections := connections w @ [host],
          printed := printed w
            @ (if VERBOSE_MODE g then [''Executing command on '' @ host @ '':'' @ newline] else [])
            @ (case snd (execute_ssh g username e host []) of
                 None \<Rightarrow> []
               | Some s \<Rightarrow> [s])\<rparr>)"

text \<open>
  \<open>parallel_execute\<close> starts one thread for each host and joins them all.
  \<open>thread_results\<close> is what the threads have done when the last one is joined: each
  has run \<open>execute_ssh\<close> on its own host and its own file, so the order in which they
  ran makes no difference as long as the hosts, and with them the files, are different.
  \<open>tmpdir_files\<close> is the temporary directory then: the name and the text of every file
  that was written. A host name is taken to be usable as a file name.
\<close>

definition verbose_prefix_of :: "globals \<Rightarrow> string \<Rightarrow> string" where
  "verbose_prefix_of g host = (if VERBOSE_MODE g then ''--- '' @ host @ '' ---'' else [])"

definition thread_results :: "globals \<Rightarrow> string \<Rightarrow> env \<Rightarrow> string list \<Rightarrow> (string \<times> int \<times> string option) list" where
  "thread_results g username e hosts =
     map (\<lambda>host. (host, execute_ssh g username e host (verbose_prefix_of g host))) hosts"

fun tmpdir_files :: "(string \<times> int \<times> string option) list \<Rightarrow> (string \<times> string) list" where
  "tmpdir_files [] = []"
| "tmpdir_files ((host, code, None) # rs) = tmpdir_files rs"
| "tmpdir_files ((host, code, Some s) # rs) = (host @ ''.out'', s) # tmpdir_files rs"

text \<open>The loop that prints the files in the order of the directory listing.\<close>

fun print_files :: "(string \<times> string) list \<Rightarrow> string list \<Rightarrow> world \<Rightarrow> error option \<times> world" where
  "print_files files [] w = (None, w)"
| "print_files files (f # fs) w =
     (case map_of files f of
        None \<Rightarrow> (Some (FileNotFoundError f), w)
      | Some s \<Rightarrow> print_files files fs (w\<lparr>printed := printed w @ [s @ newline]\<rparr>))"

text \<open>
  \<^verbatim>\<open>os.rmdir(tmpdir)\<close> at the end of \<open>parallel_execute\<close>: the files are still in
  the directory, so the call raises unless no file was written.
\<close>

definition rmdir :: "(string \<times> string) list \<Rightarrow> error option" where
  "rmdir files = (if files = [] then None else Some DirectoryNotEmpty)"

definition parallel_execute :: "globals \<Rightarrow> string \<Rightarrow> env \<Rightarrow> string list \<Rightarrow> world \<Rightarrow> error option \<times> world" where
  "parallel_execute g username e hosts w =
     (if MASS_MODE g then
        (let files = tmpdir_files (thread_results g username e hosts) in
         case print_files files (env_listdir e (map fst files))
                (w\<lparr>connections := connections w @ hosts\<rparr>) of
           (Some err, w') \<Rightarrow> (Some err, w')
         | (None, w') \<Rightarrow> (rmdir files, w'))
      else (None, w))"

subsection \<open>The main program\<close>

text \<open>What an early end of the run prints on the standard output.\<close>

fun error_output :: "error \<Rightarrow> string list" where
  "error_output (AmbiguousHost hosts) =
     [''Multiple hosts detected:'' @ newline]
     @ map (\<lambda>host. ''- '' @ host @ newline) hosts
     @ [''Use --mass flag to execute commands on multiple hosts.'' @ newline]"
| "error_output _ = []"

text \<open>
  The run from \<open>validate_input\<close> on: validation, host resolution, execution. The
  result is the exit status of the process and what the run has done.
\<close>

definition run :: "args \<Rightarrow> env \<Rightarrow> int \<times> world" where
  "run a e =
     (case validate_input a of
        Inl err \<Rightarrow> (exit_code_of err, initial_world)
      | Inr g \<Rightarrow>
          (case extract_hosts (PATTERN g) (MASS_MODE g) (env_config e) of
             Inl err \<Rightarrow> (exit_code_of err, initial_world\<lparr>printed := error_output err\<rparr>)
           | Inr (username, hosts) \<Rightarrow>
               if MASS_MODE g then
                 (case parallel_execute g username e hosts initial_world of
                    (None, w) \<Rightarrow> (0, w)
                  | (Some err, w) \<Rightarrow> (exit_code_of err, w))
               else (0, execute_ssh_command g username e hosts initial_world)))"

text \<open>The main block: a pattern that asks for help prints the usage and ends the run.\<close>

definition xssh_main :: "args \<Rightarrow> env \<Rightarrow> int \<times> world" where
  "xssh_main a e =
     (if arg_pattern a \<in> set [''-h'', ''--help'']
      then (0, initial_world\<lparr>printed := [env_usage e]\<rparr>)
      else run a e)"

text \<open>The line that a fleet run in verbose mode writes at the head of a host's file.\<close>

definition header :: "globals \<Rightarrow> string \<Rightarrow> string" where
  "header g host = (if VERBOSE_MODE g then ''--- '' @ host @ '' ---'' @ newline else [])"

text \<open>
  The final report of a fleet run in the order of the host list: the texts of the
  per-host files, each printed with a newline behind it.
\<close>

definition host_order_report :: "globals \<Rightarrow> string \<Rightarrow> env \<Rightarrow> string list \<Rightarrow> string list" where
  "host_order_report g username e hosts =
     map (\<lambda>(name, s). s @ newline) (tmpdir_files (thread_results g username e hosts))"

text \<open>
  The final report of a fleet run as the code prints it: the texts of the files in the
  order of the directory listing, each printed with a newline behind it.
\<close>

definition listing_order_report :: "(string \<times> string) list \<Rightarrow> string list \<Rightarrow> string list" where
  "listing_order_report files listing =
     map (\<lambda>f. (case map_of files f of None \<Rightarrow> [] | Some s \<Rightarrow> s) @ newline) listing"

text \<open>
  A text holds a word when case is ignored: some piece of the text reads as the word once
  both are in lower case.
\<close>

definition contains_ignoring_case :: "string \<Rightarrow> string \<Rightarrow> bool" where
  "contains_ignoring_case word text = (\<exists>piece. sublist piece text \<and> lower piece = lower word)"

text \<open>
  The invariant of the parsing loop: no alias of the set and no current host holds a
  wildcard, the current host is empty or an alias of the set, every key of the
  dictionary is an alias of the set, and the list that stands for the set names each
  alias once.
\<close>

definition registry_ok :: "registry \<Rightarrow> bool" where
  "registry_ok reg =
     ((\<forall>h\<in>set (hosts_set reg). CHR ''*'' \<notin> set h)
      \<and> (current_host reg = [] \<or> current_host reg \<in> set (hosts_set reg))
      \<and> dom (hostnames reg) \<subseteq> set (hosts_set reg)
      \<and> distinct (hosts_set reg))"

subsection \<open>Example environment\<close>

text \<open>A FIFO path generator used at concrete inputs.\<close>

definition example_mkfifo :: "nat \<Rightarrow> string \<Rightarrow> string" where
  "example_mkfifo i m = ''/tmp/xssh_fifo_'' @ replicate i CHR ''x''"

text \<open>
  A configuration file with three aliases, each mapped to itself, not in sorted order.
\<close>

definition example_config :: "string list" where
  "example_config =
     [''# fleet'',
      ''Host web2.example.com'',
      ''    Hostname web2.example.com'',
      ''Host db1.example.com'',
      ''    Hostname db1.example.com'',
      [],
      ''Host web1.example.com'',
      ''    Hostname web1.example.com'']"

text \<open>
  A configuration file whose aliases sort differently by segments and as plain strings,
  with two aliases at one address, one alias without address and a wildcard alias.
\<close>

definition fleet_config :: "string list" where
  "fleet_config =
     [''Host a-b.c'',
      ''    Hostname 10.0.0.2'',
      ''Host a.d'',
      ''    Hostname 10.0.0.1'',
      ''Host a.e'',
      ''    Hostname 10.0.0.2'',
      ''Host a.f'',
      ''Host db1.x'',
      ''    Hostname 10.0.0.9'',
      ''Host *.c'']"

text \<open>Hosts that all answer, and hosts of which \<open>web1.example.com\<close> cannot be reached.\<close>

definition example_remote :: "string \<Rightarrow> string \<Rightarrow> connect_result" where
  "example_remote host username =
     Session (\<lambda>cmd pty. ExecDone (''up on '' @ host @ newline) [] 0)"

definition flaky_remote :: "string \<Rightarrow> string \<Rightarrow> connect_result" where
  "flaky_remote host username =
     (if host = ''web1.example.com'' then ConnectError ''timed out''
      else Session (\<lambda>cmd pty. ExecDone (''up on '' @ host @ newline) [] 0))"

text \<open>An environment whose directory listing returns the newest file first.\<close>

definition example_env :: env where
  "example_env =
     \<lparr>env_config = Some example_config,
      env_remote = example_remote,
      env_mkfifo = (\<lambda>host. example_mkfifo),
      env_listdir = rev,
      env_usage = ''Usage: xssh.py [options] pattern [command]''\<rparr>"

definition flaky_env :: env where
  "flaky_env = example_env\<lparr>env_remote := flaky_remote\<rparr>"

definition example_args :: args where
  "example_args =
     \<lparr>arg_debug = False,
      arg_verbose = False,
      arg_x11 = False,
      arg_port = None,
      arg_local_forward = None,
      arg_dynamic_forward = None,
      arg_log_file = None,
      arg_mass = True,
      arg_sudo = False,
      arg_pattern = ''web'',
      arg_command = [''uptime'']\<rparr>"

text \<open>The globals that \<open>validate_input\<close> builds from \<open>example_args\<close>.\<close>

definition example_globals :: globals where
  "example_globals =
     \<lparr>MASS_MODE = True,
      SUDO_MODE = False,
      DEBUG_MODE = False,
      VERBOSE_MODE = False,
      LOG_FILE = [],
      PATTERN = ''web'',
      COMMAND = [''uptime''],
      SSH_OPTIONS = []\<rparr>"

text \<open>An environment in which every host answers every command with the given result.\<close>

definition scripted_env :: "exec_result \<Rightarrow> env" where
  "scripted_env r = example_env\<lparr>env_remote := (\<lambda>host username. Session (\<lambda>cmd pty. r))\<rparr>"

section \<open>Properties\<close>

subsection \<open>Strings\<close>

lemma lower_char_code:
  "of_char (lower_char c) =
     (if 65 \<le> (of_char c :: nat) \<and> of_char c \<le> (90 :: nat) then of_char c + 32
      else (of_char c :: nat))"
  by (cases c) (simp add: lower_char_def less_eq_char_def)

lemma findall_from_no_lt: "CHR ''<'' \<notin> set s \<Longrightarrow> findall_from k s = []"
proof (induction s arbitrary: k)
  case Nil
  show ?case by simp
next
  case (Cons c cs)
  then have c: "c \<noteq> CHR ''<''" and cs: "CHR ''<'' \<notin> set cs"
    by auto
  have m: "match_at (c # cs) = None"
    using c by (cases cs) simp_all
  show ?case
  proof (cases k)
    case 0
    then show ?thesis using m Cons.IH [OF cs] by simp
  next
    case (Suc j)
    then show ?thesis using Cons.IH [OF cs] by simp
  qed
qed

lemma handle_process_substitution_no_lt:
  "CHR ''<'' \<notin> set cmd \<Longrightarrow> handle_process_substitution mkfifo cmd = cmd"
  by (simp add: handle_process_substitution_def findall_def findall_from_no_lt)

lemma has_metachar_lt: "CHR ''<'' \<in> set s \<Longrightarrow> has_metachar s"
  by (simp add: has_metachar_def metachars_def)

lemma join_concat: "join sep (x # xs) = x @ concat (map (\<lambda>y. sep @ y) xs)"
  by (induction xs arbitrary: x) simp_all

subsection \<open>Command building\<close>

text \<open>
  C1 (as the code has it). For every non-empty token list: with more than one token the
  built command is \<open>sh -c\<close> followed by the original tokens, each between two
  apostrophes, with one space between them, behind \<open>sudo\<close> when escalation is on.
  With exactly one token the built command is that token after process substitution,
  behind \<open>sudo\<close> when escalation is on, whether or not it holds a shell
  metacharacter; a token without metacharacters is used verbatim.
\<close>

theorem wrap_remote_command_cases:
  assumes "command \<noteq> []"
  shows "(\<forall>c cs. command = c # cs \<and> cs \<noteq> [] \<longrightarrow>
            wrap_remote_command mkfifo sudo command =
              (if sudo then ''sudo '' else []) @ ''sh -c ''
                @ [CHR 0x27] @ c @ [CHR 0x27]
                @ concat (map (\<lambda>d. '' '' @ [CHR 0x27] @ d @ [CHR 0x27]) cs))
       \<and> (\<forall>t. command = [t] \<longrightarrow>
            wrap_remote_command mkfifo sudo command =
              (if sudo then ''sudo '' else []) @ handle_process_substitution mkfifo t)
       \<and> (\<forall>t. command = [t] \<and> \<not> has_metachar t \<longrightarrow>
            wrap_remote_command mkfifo sudo command = (if sudo then ''sudo '' else []) @ t)"
proof (intro conjI allI impI)
  fix c cs assume a: "command = c # cs \<and> cs \<noteq> []"
  then have l: "length command \<noteq> 1" "1 < length command"
    by (cases cs; simp)+
  have "join '' '' (map quote command)
      = [CHR 0x27] @ c @ [CHR 0x27]
        @ concat (map (\<lambda>d. '' '' @ [CHR 0x27] @ d @ [CHR 0x27]) cs)"
    using a by (simp add: join_concat quote_def comp_def)
  then show "wrap_remote_command mkfifo sudo command =
      (if sudo then ''sudo '' else []) @ ''sh -c ''
        @ [CHR 0x27] @ c @ [CHR 0x27]
        @ concat (map (\<lambda>d. '' '' @ [CHR 0x27] @ d @ [CHR 0x27]) cs)"
    using assms l by (simp add: wrap_remote_command_def Let_def)
next
  fix t assume "command = [t]"
  then show "wrap_remote_command mkfifo sudo command =
      (if sudo then ''sudo '' else []) @ handle_process_substitution mkfifo t"
    by (simp add: wrap_remote_command_def)
next
  fix t assume t: "command = [t] \<and> \<not> has_metachar t"
  then have "CHR ''<'' \<notin> set t"
    using has_metachar_lt by blast
  then have "handle_process_substitution mkfifo t = t"
    by (rule handle_process_substitution_no_lt)
  with t show "wrap_remote_command mkfifo sudo command = (if sudo then ''sudo '' else []) @ t"
    by (simp add: wrap_remote_command_def)
qed

theorem wrap_remote_command_cases_witness:
  "wrap_remote_command example_mkfifo True [''ls'', ''-l'']
     = ''sudo sh -c '' @ [CHR 0x27] @ ''ls'' @ [CHR 0x27] @ '' '' @ [CHR 0x27] @ ''-l'' @ [CHR 0x27]
   \<and> wrap_remote_command example_mkfifo False [''echo'', ''a b'', ''c'']
     = ''sh -c '' @ [CHR 0x27] @ ''echo'' @ [CHR 0x27] @ '' '' @ [CHR 0x27] @ ''a b'' @ [CHR 0x27]
         @ '' '' @ [CHR 0x27] @ ''c'' @ [CHR 0x27]
   \<and> \<not> has_metachar ''uptime''
   \<and> wrap_remote_command example_mkfifo False [''uptime''] = ''uptime''
   \<and> wrap_remote_command example_mkfifo True [''uptime''] = ''sudo uptime''
   \<and> wrap_remote_command example_mkfifo False [''cat <(echo hi)''] = ''cat <(echo hi)''
   \<and> wrap_remote_command example_mkfifo True [''cat <(echo hi) <((echo hi))'']
     = ''sudo cat <(echo hi) /tmp/xssh_fifo_''"
proof -
  have m: "\<not> has_metachar ''uptime''"
    by (simp add: has_metachar_def metachars_def)
  have ne: "[t] \<noteq> []" for t :: string
    by simp
  have s1: "handle_process_substitution example_mkfifo ''cat <(echo hi)'' = ''cat <(echo hi)''"
    by (simp add: handle_process_substitution_def findall_def replace_def example_mkfifo_def
        not_paren_def)
  have s2: "handle_process_substitution example_mkfifo ''cat <(echo hi) <((echo hi))''
      = ''cat <(echo hi) /tmp/xssh_fifo_''"
    by (simp add: handle_process_substitution_def findall_def replace_def example_mkfifo_def
        not_paren_def)
  have "wrap_remote_command example_mkfifo True [''ls'', ''-l'']
     = ''sudo sh -c '' @ [CHR 0x27] @ ''ls'' @ [CHR 0x27] @ '' '' @ [CHR 0x27] @ ''-l'' @ [CHR 0x27]"
    using wrap_remote_command_cases [of "[''ls'', ''-l'']" example_mkfifo True] by simp
  moreover have "wrap_remote_command example_mkfifo False [''echo'', ''a b'', ''c'']
     = ''sh -c '' @ [CHR 0x27] @ ''echo'' @ [CHR 0x27] @ '' '' @ [CHR 0x27] @ ''a b'' @ [CHR 0x27]
         @ '' '' @ [CHR 0x27] @ ''c'' @ [CHR 0x27]"
    using wrap_remote_command_cases [of "[''echo'', ''a b'', ''c'']" example_mkfifo False]
    by simp
  moreover have "wrap_remote_command example_mkfifo False [''uptime'']
      = (if False then ''sudo '' else []) @ ''uptime''"
    using wrap_remote_command_cases [OF ne, of "''uptime''" example_mkfifo False] m by blast
  then have "wrap_remote_command example_mkfifo False [''uptime''] = ''uptime''"
    by simp
  moreover have "wrap_remote_command example_mkfifo True [''uptime'']
      = (if True then ''sudo '' else []) @ ''uptime''"
    using wrap_remote_command_cases [OF ne, of "''uptime''" example_mkfifo True] m by blast
  then have "wrap_remote_command example_mkfifo True [''uptime''] = ''sudo uptime''"
    by simp
  moreover have "wrap_remote_command example_mkfifo False [''cat <(echo hi)'']
      = ''cat <(echo hi)''"
    using wrap_remote_command_cases [OF ne, of "''cat <(echo hi)''" example_mkfifo False] s1
    by simp
  moreover have "wrap_remote_command example_mkfifo True [''cat <(echo hi) <((echo hi))'']
      = ''sudo cat <(echo hi) /tmp/xssh_fifo_''"
    using wrap_remote_command_cases
        [OF ne, of "''cat <(echo hi) <((echo hi))''" example_mkfifo True] s2
    by simp
  ultimately show ?thesis
    using m by blast
qed

text \<open>
  C1 as stated fails: the single token \<open>ls|wc\<close> holds the metacharacter \<open>|\<close>, and
  the built command is the token itself, not the quoted token behind \<open>sh -c\<close>.
\<close>

theorem wrap_remote_command_metachar_counterexample:
  "has_metachar (join '' '' [''ls|wc''])
   \<and> wrap_remote_command example_mkfifo False [''ls|wc''] = ''ls|wc''
   \<and> wrap_remote_command example_mkfifo False [''ls|wc'']
       \<noteq> ''sh -c '' @ join '' '' (map quote [''ls|wc''])"
  by (simp add: wrap_remote_command_def handle_process_substitution_def findall_def
      has_metachar_def metachars_def)

subsection \<open>Resolution: helper facts\<close>

lemma dedup_first_Nil: "dedup_first [] = []"
  by (simp add: dedup_first_def)

lemma remdups_snoc: "remdups (ys @ [x]) = filter (\<lambda>y. y \<noteq> x) (remdups ys) @ [x]"
  by (induction ys) auto

lemma dedup_first_Cons: "dedup_first (x # xs) = x # filter (\<lambda>y. y \<noteq> x) (dedup_first xs)"
  by (simp add: dedup_first_def remdups_snoc rev_filter)

lemma set_dedup_first: "set (dedup_first xs) = set xs"
  by (simp add: dedup_first_def)

lemma distinct_dedup_first: "distinct (dedup_first xs)"
  by (simp add: dedup_first_def)

lemma match_loop_fst:
  "fst (match_loop p hn xs (hs, set hs)) =
     hs @ filter (\<lambda>a. a \<notin> set hs) (dedup_first (map (address_of hn) (filter (host_matches p) xs)))"
proof (induction xs arbitrary: hs)
  case Nil
  show ?case by (simp add: dedup_first_Nil)
next
  case (Cons x xs)
  show ?case
  proof (cases "host_matches p x")
    case False
    then show ?thesis using Cons.IH [of hs] by simp
  next
    case True
    let ?a = "address_of hn x"
    let ?D = "dedup_first (map (address_of hn) (filter (host_matches p) xs))"
    show ?thesis
    proof (cases "?a \<in> set hs")
      case True
      have "filter (\<lambda>a. a \<notin> set hs) (filter (\<lambda>y. y \<noteq> ?a) ?D) = filter (\<lambda>a. a \<notin> set hs) ?D"
        using True by (auto intro: filter_cong)
      then show ?thesis
        using \<open>host_matches p x\<close> True Cons.IH [of hs] by (simp add: dedup_first_Cons Let_def)
    next
      case False
      have s: "insert ?a (set hs) = set (hs @ [?a])" by simp
      have "filter (\<lambda>a. a \<notin> set (hs @ [?a])) ?D = filter (\<lambda>a. a \<notin> set hs) (filter (\<lambda>y. y \<noteq> ?a) ?D)"
        by (auto intro: filter_cong)
      then show ?thesis
        using \<open>host_matches p x\<close> False Cons.IH [of "hs @ [?a]"]
        by (simp add: dedup_first_Cons s Let_def del: set_append)
    qed
  qed
qed

lemma split_on_not_Nil: "split_on d s \<noteq> []"
  by (induction s) (auto split: list.splits)

lemma join_split_on: "join [d] (split_on d s) = s"
proof (induction s)
  case Nil
  show ?case by simp
next
  case (Cons c cs)
  obtain w ws where w: "split_on d cs = w # ws"
    using split_on_not_Nil [of d cs] by (cases "split_on d cs") auto
  show ?case using Cons w by (cases ws) auto
qed

lemma inj_split_on: "inj (split_on d)"
  by (metis injI join_split_on)

lemma sorted_hosts_set_eq:
  assumes "distinct xs" "distinct ys" "set xs = set ys"
  shows "sorted_hosts xs = sorted_hosts ys"
  unfolding sorted_hosts_def
proof (rule map_sorted_distinct_set_unique [where f = "split_on CHR ''.''"])
  show "inj_on (split_on CHR ''.'') (set (sort_key (split_on CHR ''.'') xs) \<union> set (sort_key (split_on CHR ''.'') ys))"
    using inj_split_on by (rule inj_on_subset) simp
qed (use assms in \<open>simp_all add: distinct_map inj_on_subset [OF inj_split_on]\<close>)

lemma strip_last: "strip s \<noteq> [] \<Longrightarrow> \<not> is_space (last (strip s))"
proof -
  assume ne: "strip s \<noteq> []"
  let ?d = "dropWhile is_space (rev (dropWhile is_space s))"
  have d: "?d \<noteq> []" using ne by (simp add: strip_def)
  then have "\<not> is_space (hd ?d)" by (rule hd_dropWhile)
  moreover have "last (strip s) = hd ?d"
    using d by (simp add: strip_def last_rev)
  ultimately show ?thesis by simp
qed

lemma split_from_not_Nil:
  "w \<noteq> [] \<or> (\<exists>c\<in>set s. \<not> is_space c) \<Longrightarrow> split_from w s \<noteq> []"
  by (induction s arbitrary: w) auto

lemma split_ws_Hostname:
  assumes "line = strip raw" "startswith line ''Hostname ''"
  shows "\<exists>a rest. split_ws line = ''Hostname'' # a # rest"
proof -
  obtain r where r: "line = ''Hostname '' @ r"
    using assms(2) by (auto simp: startswith_def prefix_def)
  have ne: "strip raw \<noteq> []" using assms(1) r by auto
  have nsp: "\<not> is_space (last line)"
    using strip_last [OF ne] assms(1) by simp
  have sp: "is_space CHR '' ''" by (simp add: is_space_def)
  have rne: "r \<noteq> []"
    using nsp sp r by auto
  then have "last line = last r" using r by simp
  then have "\<exists>c\<in>set r. \<not> is_space c"
    using nsp rne last_in_set by metis
  then have "split_from [] r \<noteq> []"
    using split_from_not_Nil by blast
  then obtain a rest where ar: "split_from [] r = a # rest"
    by (cases "split_from [] r") auto
  have "split_ws line = ''Hostname'' # split_from [] r"
    by (simp add: split_ws_def r is_space_def)
  then show ?thesis using ar by simp
qed

lemma parse_line_total: "\<exists>reg'. parse_line raw reg = Inr reg'"
proof (cases "startswith (strip raw) ''Hostname ''")
  case True
  then obtain a rest where "split_ws (strip raw) = ''Hostname'' # a # rest"
    using split_ws_Hostname by blast
  then show ?thesis by (simp add: parse_line_def Let_def)
next
  case False
  then show ?thesis by (simp add: parse_line_def Let_def)
qed

lemma parse_lines_total: "\<exists>reg'. parse_lines ls reg = Inr reg'"
proof (induction ls arbitrary: reg)
  case Nil
  show ?case by simp
next
  case (Cons l ls)
  obtain r where "parse_line l reg = Inr r" using parse_line_total by blast
  then show ?case using Cons.IH [of r] by simp
qed

lemma registry_ok_empty: "registry_ok empty_registry"
  by (simp add: registry_ok_def empty_registry_def)

lemma host_aliases_ok: "registry_ok reg \<Longrightarrow> registry_ok (host_aliases hs reg)"
proof (induction hs arbitrary: reg)
  case Nil
  then show ?case by simp
next
  case (Cons h hs)
  have "registry_ok (if CHR ''*'' \<in> set h then reg
        else reg\<lparr>current_host := h, hosts_set := List.insert h (hosts_set reg)\<rparr>)"
    using Cons.prems by (auto simp: registry_ok_def)
  then show ?case using Cons.IH by simp
qed

lemma host_aliases_filter:
  "host_aliases hs reg = host_aliases (filter (\<lambda>h. CHR ''*'' \<notin> set h) hs) reg"
  by (induction hs arbitrary: reg) simp_all

lemma parse_line_ok:
  assumes "registry_ok reg" "parse_line raw reg = Inr reg'"
  shows "registry_ok reg'"
proof -
  have upd: "registry_ok (reg\<lparr>hostnames := (hostnames reg)(current_host reg \<mapsto> a)\<rparr>)"
    if "current_host reg \<noteq> []" for a
    using assms(1) that by (auto simp: registry_ok_def)
  show ?thesis
    using assms host_aliases_ok [OF assms(1)] upd
    by (auto simp: parse_line_def Let_def split: if_splits list.splits)
qed

lemma parse_lines_ok:
  "registry_ok reg \<Longrightarrow> parse_lines ls reg = Inr reg' \<Longrightarrow> registry_ok reg'"
proof (induction ls arbitrary: reg)
  case Nil
  then show ?case by simp
next
  case (Cons l ls)
  then show ?case
    by (auto split: sum.splits dest: parse_line_ok)
qed

lemma host_matches_no_wildcard:
  "CHR ''*'' \<notin> set a \<Longrightarrow> host_matches p a = contains (lower p) (lower a)"
  by (simp add: host_matches_def)

lemma matching_hosts_resolve:
  assumes "parse_lines lines empty_registry = Inr reg"
  shows "matching_hosts p (Some lines) = Inr (resolve_spec p (hostnames reg) (hosts_set reg))"
proof -
  have ok: "registry_ok reg"
    using parse_lines_ok [OF registry_ok_empty assms] .
  then have nw: "\<forall>a\<in>set (sorted_hosts (hosts_set reg)). CHR ''*'' \<notin> set a"
    by (simp add: registry_ok_def sorted_hosts_def)
  have f: "filter (host_matches p) (sorted_hosts (hosts_set reg))
      = filter (\<lambda>a. contains (lower p) (lower a)) (sorted_hosts (hosts_set reg))"
    using nw by (auto intro: filter_cong simp: host_matches_no_wildcard)
  have "fst (match_loop p (hostnames reg) (sorted_hosts (hosts_set reg)) ([], {}))
      = resolve_spec p (hostnames reg) (hosts_set reg)"
    using match_loop_fst [of p "hostnames reg" "sorted_hosts (hosts_set reg)" "[]"]
    by (simp add: resolve_spec_def f)
  then show ?thesis using assms by (simp add: matching_hosts_def)
qed

subsection \<open>Host resolution\<close>

lemmas parse_eval = parse_line_def strip_def is_space_def startswith_def split_ws_def
  empty_registry_def Let_def

lemmas match_eval = sorted_hosts_def host_matches_def contains_def lower_def lower_char_def
  address_of_def sublist_code(3) Let_def

lemma example_config_parsed:
  "parse_lines example_config empty_registry =
     Inr \<lparr>current_host = ''web1.example.com'',
          hostnames = [''web2.example.com'' \<mapsto> ''web2.example.com'',
                       ''db1.example.com'' \<mapsto> ''db1.example.com'',
                       ''web1.example.com'' \<mapsto> ''web1.example.com''],
          hosts_set = [''web1.example.com'', ''db1.example.com'', ''web2.example.com'']\<rparr>"
  by (simp add: example_config_def parse_eval)

lemma example_config_web:
  "extract_hosts ''web'' mass (Some example_config) =
     (if mass then Inr ([], [''web1.example.com'', ''web2.example.com''])
      else Inl (AmbiguousHost [''web1.example.com'', ''web2.example.com'']))"
  by (simp add: extract_hosts_def split_user_def matching_hosts_def example_config_parsed
      match_eval)

lemma extract_hosts_cases:
  assumes "split_user pat = (username, host_pattern)"
  shows "extract_hosts pat mass config =
     (case matching_hosts host_pattern config of
        Inl err \<Rightarrow> Inl err
      | Inr hosts \<Rightarrow>
          if 1 < length hosts \<and> \<not> mass then Inl (AmbiguousHost hosts)
          else if hosts = [] then Inr (username, [host_pattern])
          else Inr (username, hosts))"
  using assms by (simp add: extract_hosts_def)

lemma split_on_concat: "concat (map (\<lambda>seg. seg @ [d]) (split_on d s)) = s @ [d]"
proof (induction s)
  case Nil
  show ?case by simp
next
  case (Cons c cs)
  obtain w ws where w: "split_on d cs = w # ws"
    using split_on_not_Nil [of d cs] by (cases "split_on d cs") auto
  show ?case using Cons w by auto
qed

lemma split_on_no_separator: "seg \<in> set (split_on d s) \<Longrightarrow> d \<notin> set seg"
proof (induction s arbitrary: seg)
  case Nil
  then show ?case by simp
next
  case (Cons c cs)
  obtain w ws where w: "split_on d cs = w # ws"
    using split_on_not_Nil [of d cs] by (cases "split_on d cs") auto
  show ?case
    using Cons.prems Cons.IH w by (auto split: if_splits)
qed

lemma lower_char_of:
  "lower_char c =
     (if CHR ''A'' \<le> c \<and> c \<le> CHR ''Z'' then char_of (of_char c + (32 :: nat)) else c)"
proof -
  have "lower_char c = char_of (of_char (lower_char c) :: nat)"
    by simp
  also have "\<dots> = char_of (if 65 \<le> (of_char c :: nat) \<and> of_char c \<le> (90 :: nat)
      then of_char c + 32 else (of_char c :: nat))"
    by (simp only: lower_char_code)
  finally show ?thesis
    by (simp add: less_eq_char_def)
qed

lemma sorted_hosts_unique:
  assumes "mset order = mset hs" and "sorted (map (split_on CHR ''.'') order)"
    and "distinct hs"
  shows "order = sorted_hosts hs"
  unfolding sorted_hosts_def
proof (rule map_sorted_distinct_set_unique [where f = "split_on CHR ''.''"])
  have d: "distinct order"
    using assms(3) mset_eq_imp_distinct_iff [OF assms(1)] by simp
  have e: "set order = set hs"
    using assms(1) by (rule mset_eq_setD)
  show "inj_on (split_on CHR ''.'') (set order \<union> set (sort_key (split_on CHR ''.'') hs))"
    using inj_split_on by (rule inj_on_subset) simp
  show "sorted (map (split_on CHR ''.'') order)"
    by (rule assms(2))
  show "distinct (map (split_on CHR ''.'') order)"
    using d by (simp add: distinct_map inj_on_subset [OF inj_split_on])
  show "sorted (map (split_on CHR ''.'') (sort_key (split_on CHR ''.'') hs))"
    by simp
  show "distinct (map (split_on CHR ''.'') (sort_key (split_on CHR ''.'') hs))"
    using assms(3) by (simp add: distinct_map inj_on_subset [OF inj_split_on])
  show "set order = set (sort_key (split_on CHR ''.'') hs)"
    using e by simp
qed

lemma fleet_config_parsed:
  "parse_lines fleet_config empty_registry =
     Inr \<lparr>current_host = ''db1.x'',
          hostnames = [''a-b.c'' \<mapsto> ''10.0.0.2'', ''a.d'' \<mapsto> ''10.0.0.1'',
                       ''a.e'' \<mapsto> ''10.0.0.2'', ''db1.x'' \<mapsto> ''10.0.0.9''],
          hosts_set = [''db1.x'', ''a.f'', ''a.e'', ''a.d'', ''a-b.c'']\<rparr>"
  by (simp add: fleet_config_def parse_eval)

text \<open>
  C3. For every configuration file and pattern: parsing yields a registry whose alias set
  holds no wildcard alias. The aliases are taken in the order of their lists of
  dot-separated segments, compared lexicographically segment by segment (the segments of
  an alias hold no dot, and put together with dots they give the alias); those whose
  lower-case form holds the lower-case host pattern are kept and mapped to their
  addresses (an alias without address to itself); of equal addresses the first stays.
  Lower case moves the letters A to Z to a to z and nothing else. For the aliases
  \<open>web1.example.com\<close>, \<open>web2.example.com\<close> and \<open>db1.example.com\<close>, each mapped to
  itself, the pattern \<open>web\<close> in mass mode resolves to \<open>web1.example.com\<close> and
  \<open>web2.example.com\<close>, in that order.
\<close>

theorem extract_hosts_resolution:
  assumes "split_user pat = (username, host_pattern)"
  shows "(\<exists>reg order.
            parse_lines lines empty_registry = Inr reg
            \<and> (\<forall>a\<in>set (hosts_set reg). CHR ''*'' \<notin> set a)
            \<and> mset order = mset (hosts_set reg)
            \<and> sorted (map (split_on CHR ''.'') order)
            \<and> matching_hosts host_pattern (Some lines)
                = Inr (rev (remdups (rev
                    (map (\<lambda>a. case hostnames reg a of None \<Rightarrow> a | Some x \<Rightarrow> x)
                       (filter (\<lambda>a. sublist (lower host_pattern) (lower a)) order)))))
            \<and> (\<forall>hosts. matching_hosts host_pattern (Some lines) = Inr hosts \<and> hosts \<noteq> [] \<longrightarrow>
                  extract_hosts pat True (Some lines) = Inr (username, hosts)))
       \<and> (\<forall>alias. concat (map (\<lambda>seg. seg @ ''.'') (split_on CHR ''.'' alias)) = alias @ ''.''
              \<and> (\<forall>seg\<in>set (split_on CHR ''.'' alias). CHR ''.'' \<notin> set seg))
       \<and> (\<forall>s. lower s =
              map (\<lambda>c. if CHR ''A'' \<le> c \<and> c \<le> CHR ''Z''
                        then char_of (of_char c + (32 :: nat)) else c) s)
       \<and> extract_hosts ''web'' True (Some example_config)
           = Inr ([], [''web1.example.com'', ''web2.example.com''])"
proof (intro conjI)
  obtain reg where reg: "parse_lines lines empty_registry = Inr reg"
    using parse_lines_total by blast
  have ok: "registry_ok reg"
    using parse_lines_ok [OF registry_ok_empty reg] .
  let ?order = "sorted_hosts (hosts_set reg)"
  have a: "address_of (hostnames reg)
      = (\<lambda>a. case hostnames reg a of None \<Rightarrow> a | Some x \<Rightarrow> x)"
    by (simp add: address_of_def fun_eq_iff)
  have "matching_hosts host_pattern (Some lines)
      = Inr (resolve_spec host_pattern (hostnames reg) (hosts_set reg))"
    using reg by (rule matching_hosts_resolve)
  then have m: "matching_hosts host_pattern (Some lines)
      = Inr (rev (remdups (rev
          (map (\<lambda>a. case hostnames reg a of None \<Rightarrow> a | Some x \<Rightarrow> x)
             (filter (\<lambda>a. sublist (lower host_pattern) (lower a)) ?order)))))"
    by (simp only: resolve_spec_def dedup_first_def a contains_def)
  have w: "\<forall>a\<in>set (hosts_set reg). CHR ''*'' \<notin> set a"
    using ok by (simp add: registry_ok_def)
  have p: "mset ?order = mset (hosts_set reg)"
    by (simp add: sorted_hosts_def)
  have s: "sorted (map (split_on CHR ''.'') ?order)"
    by (simp add: sorted_hosts_def)
  have x: "\<forall>hosts. matching_hosts host_pattern (Some lines) = Inr hosts \<and> hosts \<noteq> [] \<longrightarrow>
      extract_hosts pat True (Some lines) = Inr (username, hosts)"
    by (simp add: extract_hosts_cases [OF assms])
  show "\<exists>reg order.
            parse_lines lines empty_registry = Inr reg
            \<and> (\<forall>a\<in>set (hosts_set reg). CHR ''*'' \<notin> set a)
            \<and> mset order = mset (hosts_set reg)
            \<and> sorted (map (split_on CHR ''.'') order)
            \<and> matching_hosts host_pattern (Some lines)
                = Inr (rev (remdups (rev
                    (map (\<lambda>a. case hostnames reg a of None \<Rightarrow> a | Some x \<Rightarrow> x)
                       (filter (\<lambda>a. sublist (lower host_pattern) (lower a)) order)))))
            \<and> (\<forall>hosts. matching_hosts host_pattern (Some lines) = Inr hosts \<and> hosts \<noteq> [] \<longrightarrow>
                  extract_hosts pat True (Some lines) = Inr (username, hosts))"
    by (intro exI [of _ reg] exI [of _ ?order] conjI reg w p s m x)
next
  show "\<forall>alias. concat (map (\<lambda>seg. seg @ ''.'') (split_on CHR ''.'' alias)) = alias @ ''.''
      \<and> (\<forall>seg\<in>set (split_on CHR ''.'' alias). CHR ''.'' \<notin> set seg)"
    by (simp add: split_on_concat split_on_no_separator)
next
  show "\<forall>s. lower s =
      map (\<lambda>c. if CHR ''A'' \<le> c \<and> c \<le> CHR ''Z''
                then char_of (of_char c + (32 :: nat)) else c) s"
  proof
    fix s
    have "lower_char = (\<lambda>c. if CHR ''A'' \<le> c \<and> c \<le> CHR ''Z''
        then char_of (of_char c + (32 :: nat)) else c)"
      by (rule ext) (rule lower_char_of)
    then show "lower s =
        map (\<lambda>c. if CHR ''A'' \<le> c \<and> c \<le> CHR ''Z''
                  then char_of (of_char c + (32 :: nat)) else c) s"
      by (simp only: lower_def)
  qed
next
  show "extract_hosts ''web'' True (Some example_config)
      = Inr ([], [''web1.example.com'', ''web2.example.com''])"
    by (simp add: example_config_web)
qed

theorem extract_hosts_resolution_witness:
  "split_user ''ops@A'' = (''ops'', ''A'')
   \<and> (\<exists>reg. parse_lines fleet_config empty_registry = Inr reg
         \<and> list_all (\<lambda>a. CHR ''*'' \<notin> set a) (hosts_set reg)
         \<and> mset [''a.d'', ''a.e'', ''a.f'', ''a-b.c'', ''db1.x''] = mset (hosts_set reg)
         \<and> hostnames reg ''a-b.c'' = Some ''10.0.0.2''
         \<and> hostnames reg ''a.d'' = Some ''10.0.0.1''
         \<and> hostnames reg ''a.e'' = Some ''10.0.0.2''
         \<and> hostnames reg ''a.f'' = None)
   \<and> map (split_on CHR ''.'') [''a.d'', ''a.e'', ''a.f'', ''a-b.c'', ''db1.x'']
       = [[''a'', ''d''], [''a'', ''e''], [''a'', ''f''], [''a-b'', ''c''], [''db1'', ''x'']]
   \<and> sorted (map (split_on CHR ''.'') [''a.d'', ''a.e'', ''a.f'', ''a-b.c'', ''db1.x''])
   \<and> \<not> sorted [''a.d'', ''a.e'', ''a.f'', ''a-b.c'', ''db1.x'']
   \<and> matching_hosts ''A'' (Some fleet_config) = Inr [''10.0.0.1'', ''10.0.0.2'', ''a.f'']
   \<and> extract_hosts ''ops@A'' True (Some fleet_config)
       = Inr (''ops'', [''10.0.0.1'', ''10.0.0.2'', ''a.f''])
   \<and> lower ''Web-1.EXAMPLE.com'' = ''web-1.example.com''"
proof -
  let ?reg = "\<lparr>current_host = ''db1.x'',
          hostnames = [''a-b.c'' \<mapsto> ''10.0.0.2'', ''a.d'' \<mapsto> ''10.0.0.1'',
                       ''a.e'' \<mapsto> ''10.0.0.2'', ''db1.x'' \<mapsto> ''10.0.0.9''],
          hosts_set = [''db1.x'', ''a.f'', ''a.e'', ''a.d'', ''a-b.c'']\<rparr>"
  let ?order = "[''a.d'', ''a.e'', ''a.f'', ''a-b.c'', ''db1.x'']"
  have u: "split_user ''ops@A'' = (''ops'', ''A'')"
    by (simp add: split_user_def)
  note t = extract_hosts_resolution [OF u, of fleet_config]
  from t have "\<exists>reg order.
            parse_lines fleet_config empty_registry = Inr reg
            \<and> (\<forall>a\<in>set (hosts_set reg). CHR ''*'' \<notin> set a)
            \<and> mset order = mset (hosts_set reg)
            \<and> sorted (map (split_on CHR ''.'') order)
            \<and> matching_hosts ''A'' (Some fleet_config)
                = Inr (rev (remdups (rev
                    (map (\<lambda>a. case hostnames reg a of None \<Rightarrow> a | Some x \<Rightarrow> x)
                       (filter (\<lambda>a. sublist (lower ''A'') (lower a)) order)))))
            \<and> (\<forall>hosts. matching_hosts ''A'' (Some fleet_config) = Inr hosts \<and> hosts \<noteq> [] \<longrightarrow>
                  extract_hosts ''ops@A'' True (Some fleet_config) = Inr (''ops'', hosts))"
    by (rule conjunct1)
  then obtain reg order where h:
           "parse_lines fleet_config empty_registry = Inr reg
            \<and> (\<forall>a\<in>set (hosts_set reg). CHR ''*'' \<notin> set a)
            \<and> mset order = mset (hosts_set reg)
            \<and> sorted (map (split_on CHR ''.'') order)
            \<and> matching_hosts ''A'' (Some fleet_config)
                = Inr (rev (remdups (rev
                    (map (\<lambda>a. case hostnames reg a of None \<Rightarrow> a | Some x \<Rightarrow> x)
                       (filter (\<lambda>a. sublist (lower ''A'') (lower a)) order)))))
            \<and> (\<forall>hosts. matching_hosts ''A'' (Some fleet_config) = Inr hosts \<and> hosts \<noteq> [] \<longrightarrow>
                  extract_hosts ''ops@A'' True (Some fleet_config) = Inr (''ops'', hosts))"
    by (elim exE)
  note reg = h [THEN conjunct1]
    and p = h [THEN conjunct2, THEN conjunct2, THEN conjunct1]
    and s = h [THEN conjunct2, THEN conjunct2, THEN conjunct2, THEN conjunct1]
    and m = h [THEN conjunct2, THEN conjunct2, THEN conjunct2, THEN conjunct2, THEN conjunct1]
    and x = h [THEN conjunct2, THEN conjunct2, THEN conjunct2, THEN conjunct2, THEN conjunct2]
  have r: "reg = ?reg"
    using reg by (simp add: fleet_config_parsed)
  have d: "distinct (hosts_set reg)"
    by (simp add: r)
  have o: "order = ?order"
    using sorted_hosts_unique [OF p s d] by (simp add: r sorted_hosts_def)
  have k: "map (split_on CHR ''.'') ?order
      = [[''a'', ''d''], [''a'', ''e''], [''a'', ''f''], [''a-b'', ''c''], [''db1'', ''x'']]"
    by simp
  have s': "sorted (map (split_on CHR ''.'') ?order)"
    using s by (simp only: o)
  have n: "\<not> sorted ?order"
    by simp
  have m': "matching_hosts ''A'' (Some fleet_config) = Inr [''10.0.0.1'', ''10.0.0.2'', ''a.f'']"
    unfolding m o r by (simp add: lower_def lower_char_def sublist_code(3))
  then have x': "extract_hosts ''ops@A'' True (Some fleet_config)
      = Inr (''ops'', [''10.0.0.1'', ''10.0.0.2'', ''a.f''])"
    using x by simp
  have lw: "lower ''Web-1.EXAMPLE.com'' = ''web-1.example.com''"
    by (simp add: lower_def lower_char_def)
  have e: "parse_lines fleet_config empty_registry = Inr ?reg
      \<and> list_all (\<lambda>a. CHR ''*'' \<notin> set a) (hosts_set ?reg)
      \<and> mset ?order = mset (hosts_set ?reg)
      \<and> hostnames ?reg ''a-b.c'' = Some ''10.0.0.2''
      \<and> hostnames ?reg ''a.d'' = Some ''10.0.0.1''
      \<and> hostnames ?reg ''a.e'' = Some ''10.0.0.2''
      \<and> hostnames ?reg ''a.f'' = None"
    using p by (simp add: fleet_config_parsed o r)
  have "\<exists>reg. parse_lines fleet_config empty_registry = Inr reg
         \<and> list_all (\<lambda>a. CHR ''*'' \<notin> set a) (hosts_set reg)
         \<and> mset [''a.d'', ''a.e'', ''a.f'', ''a-b.c'', ''db1.x''] = mset (hosts_set reg)
         \<and> hostnames reg ''a-b.c'' = Some ''10.0.0.2''
         \<and> hostnames reg ''a.d'' = Some ''10.0.0.1''
         \<and> hostnames reg ''a.e'' = Some ''10.0.0.2''
         \<and> hostnames reg ''a.f'' = None"
    using e by (rule exI [of _ ?reg])
  then show ?thesis
    by (intro conjI u k s' n m' x' lw)
qed

lemma set_resolve_spec:
  "set (resolve_spec p hn aliases) \<subseteq> address_of hn ` set aliases"
  by (auto simp: resolve_spec_def set_dedup_first sorted_hosts_def)

lemma resolve_spec_Nil:
  "(\<forall>a\<in>set aliases. \<not> contains (lower p) (lower a)) \<Longrightarrow> resolve_spec p hn aliases = []"
proof -
  assume "\<forall>a\<in>set aliases. \<not> contains (lower p) (lower a)"
  then have "filter (\<lambda>a. contains (lower p) (lower a)) (sorted_hosts aliases) = []"
    by (simp add: sorted_hosts_def filter_empty_conv)
  then show ?thesis
    by (simp add: resolve_spec_def dedup_first_Nil)
qed

lemma matching_hosts_total: "\<exists>hosts. matching_hosts p config = Inr hosts"
proof (cases config)
  case None
  then show ?thesis by (simp add: matching_hosts_def)
next
  case (Some lines)
  obtain reg where "parse_lines lines empty_registry = Inr reg"
    using parse_lines_total by blast
  then show ?thesis using Some by (simp add: matching_hosts_def)
qed

text \<open>
  C5. The code at a configuration file in which the block of \<open>web1\<close>, with the address
  10.0.0.1, is followed by the block of the wildcard alias \<open>*.example.com\<close> with a
  \<open>Hostname\<close> line of its own. The wildcard alias stays out of the alias set, but it is
  not recorded as the current host either: after its \<open>Host\<close> line the current host is
  still \<open>web1\<close>, so the \<open>Hostname\<close> line of the wildcard block replaces the address of
  \<open>web1\<close>, and the pattern \<open>web1\<close> resolves to 10.9.9.9, where without the wildcard
  block it resolves to 10.0.0.1.
\<close>

theorem wildcard_block_readdresses_host:
  "parse_lines [''Host web1'', ''    Hostname 10.0.0.1''] empty_registry
     = Inr \<lparr>current_host = ''web1'', hostnames = [''web1'' \<mapsto> ''10.0.0.1''],
            hosts_set = [''web1'']\<rparr>
   \<and> parse_lines [''Host web1'', ''    Hostname 10.0.0.1'', ''Host *.example.com'']
         empty_registry
     = Inr \<lparr>current_host = ''web1'', hostnames = [''web1'' \<mapsto> ''10.0.0.1''],
            hosts_set = [''web1'']\<rparr>
   \<and> parse_lines [''Host web1'', ''    Hostname 10.0.0.1'', ''Host *.example.com'',
                    ''    Hostname 10.9.9.9''] empty_registry
     = Inr \<lparr>current_host = ''web1'', hostnames = [''web1'' \<mapsto> ''10.9.9.9''],
            hosts_set = [''web1'']\<rparr>
   \<and> extract_hosts ''web1'' False (Some [''Host web1'', ''    Hostname 10.0.0.1''])
     = Inr ([], [''10.0.0.1''])
   \<and> extract_hosts ''web1'' False
         (Some [''Host web1'', ''    Hostname 10.0.0.1'', ''Host *.example.com'',
                ''    Hostname 10.9.9.9''])
     = Inr ([], [''10.9.9.9''])"
proof -
  have p1: "parse_lines [''Host web1'', ''    Hostname 10.0.0.1''] empty_registry
     = Inr \<lparr>current_host = ''web1'', hostnames = [''web1'' \<mapsto> ''10.0.0.1''],
            hosts_set = [''web1'']\<rparr>"
    by (simp add: parse_eval)
  have p2: "parse_lines [''Host web1'', ''    Hostname 10.0.0.1'', ''Host *.example.com'']
         empty_registry
     = Inr \<lparr>current_host = ''web1'', hostnames = [''web1'' \<mapsto> ''10.0.0.1''],
            hosts_set = [''web1'']\<rparr>"
    by (simp add: parse_eval)
  have p3: "parse_lines [''Host web1'', ''    Hostname 10.0.0.1'', ''Host *.example.com'',
                    ''    Hostname 10.9.9.9''] empty_registry
     = Inr \<lparr>current_host = ''web1'', hostnames = [''web1'' \<mapsto> ''10.9.9.9''],
            hosts_set = [''web1'']\<rparr>"
    by (simp add: parse_eval)
  have u: "split_user ''web1'' = ([], ''web1'')"
    by (simp add: split_user_def)
  have "matching_hosts ''web1'' (Some [''Host web1'', ''    Hostname 10.0.0.1''])
      = Inr [''10.0.0.1'']"
    unfolding matching_hosts_resolve [OF p1]
    by (simp add: resolve_spec_def dedup_first_def match_eval)
  then have x1: "extract_hosts ''web1'' False (Some [''Host web1'', ''    Hostname 10.0.0.1''])
     = Inr ([], [''10.0.0.1''])"
    by (simp add: extract_hosts_cases [OF u])
  have "matching_hosts ''web1''
         (Some [''Host web1'', ''    Hostname 10.0.0.1'', ''Host *.example.com'',
                ''    Hostname 10.9.9.9''])
      = Inr [''10.9.9.9'']"
    unfolding matching_hosts_resolve [OF p3]
    by (simp add: resolve_spec_def dedup_first_def match_eval)
  then have x2: "extract_hosts ''web1'' False
         (Some [''Host web1'', ''    Hostname 10.0.0.1'', ''Host *.example.com'',
                ''    Hostname 10.9.9.9''])
     = Inr ([], [''10.9.9.9''])"
    by (simp add: extract_hosts_cases [OF u])
  show ?thesis
    by (intro conjI p1 p2 p3 x1 x2)
qed

text \<open>
  C9. When there is no configuration file, or no alias of the registry matches the host
  pattern (the pattern behind the first \<open>@\<close>), resolution yields the one-element host
  list that holds the host pattern. A host list that resolution yields is never empty,
  and resolution fails only when there are several hosts and no mass mode.
\<close>

theorem extract_hosts_fallback:
  assumes "split_user pat = (username, host_pattern)"
  shows "(config = None \<longrightarrow> extract_hosts pat mass config = Inr (username, [host_pattern]))
       \<and> (\<forall>lines reg. config = Some lines \<and> parse_lines lines empty_registry = Inr reg
             \<and> (\<forall>a\<in>set (hosts_set reg). \<not> contains (lower host_pattern) (lower a)) \<longrightarrow>
             extract_hosts pat mass config = Inr (username, [host_pattern]))
       \<and> (\<forall>u hosts. extract_hosts pat mass config = Inr (u, hosts) \<longrightarrow> hosts \<noteq> [])
       \<and> (\<forall>err. extract_hosts pat mass config = Inl err \<longrightarrow>
             (\<exists>hosts. err = AmbiguousHost hosts \<and> 1 < length hosts \<and> \<not> mass))"
proof (intro conjI allI impI)
  assume "config = None"
  then show "extract_hosts pat mass config = Inr (username, [host_pattern])"
    by (simp add: extract_hosts_cases [OF assms] matching_hosts_def)
next
  fix lines reg
  assume a: "config = Some lines \<and> parse_lines lines empty_registry = Inr reg
      \<and> (\<forall>a\<in>set (hosts_set reg). \<not> contains (lower host_pattern) (lower a))"
  then have "matching_hosts host_pattern config = Inr []"
    using matching_hosts_resolve [of lines reg host_pattern] resolve_spec_Nil by simp
  then show "extract_hosts pat mass config = Inr (username, [host_pattern])"
    by (simp add: extract_hosts_cases [OF assms])
next
  fix u hosts assume "extract_hosts pat mass config = Inr (u, hosts)"
  then show "hosts \<noteq> []"
    by (auto simp: extract_hosts_cases [OF assms] split: sum.splits if_splits)
next
  fix err assume e: "extract_hosts pat mass config = Inl err"
  obtain hosts where "matching_hosts host_pattern config = Inr hosts"
    using matching_hosts_total by blast
  then show "\<exists>hosts. err = AmbiguousHost hosts \<and> 1 < length hosts \<and> \<not> mass"
    using e by (auto simp: extract_hosts_cases [OF assms] split: if_splits)
qed

theorem extract_hosts_fallback_witness:
  "split_user ''ops@Backup7'' = (''ops'', ''Backup7'')
   \<and> extract_hosts ''ops@Backup7'' False None = Inr (''ops'', [''Backup7''])
   \<and> (\<exists>reg. parse_lines example_config empty_registry = Inr reg
         \<and> list_all (\<lambda>a. \<not> contains (lower ''Backup7'') (lower a)) (hosts_set reg))
   \<and> extract_hosts ''ops@Backup7'' False (Some example_config) = Inr (''ops'', [''Backup7''])
   \<and> [''Backup7''] \<noteq> ([] :: string list)"
proof -
  have u: "split_user ''ops@Backup7'' = (''ops'', ''Backup7'')"
    by (simp add: split_user_def)
  note t = extract_hosts_fallback [OF u]
  have n: "extract_hosts ''ops@Backup7'' False None = Inr (''ops'', [''Backup7''])"
    using t [of None False] by blast
  let ?reg = "\<lparr>current_host = ''web1.example.com'',
          hostnames = [''web2.example.com'' \<mapsto> ''web2.example.com'',
                       ''db1.example.com'' \<mapsto> ''db1.example.com'',
                       ''web1.example.com'' \<mapsto> ''web1.example.com''],
          hosts_set = [''web1.example.com'', ''db1.example.com'', ''web2.example.com'']\<rparr>"
  have p: "parse_lines example_config empty_registry = Inr ?reg"
    by (rule example_config_parsed)
  have l: "list_all (\<lambda>a. \<not> contains (lower ''Backup7'') (lower a)) (hosts_set ?reg)"
    by (simp add: contains_def lower_def lower_char_def sublist_code(3))
  then have "\<forall>a\<in>set (hosts_set ?reg). \<not> contains (lower ''Backup7'') (lower a)"
    by (simp only: list_all_iff)
  then have s: "extract_hosts ''ops@Backup7'' False (Some example_config)
      = Inr (''ops'', [''Backup7''])"
    using t [of "Some example_config" False] p by blast
  show ?thesis
    using u n p l s by blast
qed

text \<open>
  C4. When the hosts found for the pattern are more than one and mass mode is off,
  resolution fails with \<open>AmbiguousHost\<close>, which carries all the hosts found; the run
  ends with status 1, has printed the candidates and has connected to no host.
\<close>

theorem ambiguous_hosts_rejected:
  assumes "split_user (arg_pattern a) = (username, host_pattern)"
    and "matching_hosts host_pattern (env_config e) = Inr hosts"
    and "1 < length hosts"
    and "\<not> arg_mass a"
  shows "extract_hosts (arg_pattern a) (arg_mass a) (env_config e) = Inl (AmbiguousHost hosts)
       \<and> run a e = (1, \<lparr>connections = [], printed = error_output (AmbiguousHost hosts)\<rparr>)
       \<and> connections (snd (xssh_main a e)) = []"
proof -
  have x: "extract_hosts (arg_pattern a) (arg_mass a) (env_config e) = Inl (AmbiguousHost hosts)"
    using assms(2-4) by (simp add: extract_hosts_cases [OF assms(1)])
  obtain g where g: "validate_input a = Inr g" "PATTERN g = arg_pattern a" "MASS_MODE g = arg_mass a"
    using assms(4) by (simp add: validate_input_def)
  have r: "run a e = (1, \<lparr>connections = [], printed = error_output (AmbiguousHost hosts)\<rparr>)"
    using g x by (simp add: run_def initial_world_def)
  have "connections (snd (xssh_main a e)) = []"
    using r by (simp add: xssh_main_def initial_world_def)
  then show ?thesis using x r by blast
qed

theorem ambiguous_hosts_rejected_witness:
  "split_user ''web'' = ([], ''web'')
   \<and> matching_hosts ''web'' (Some example_config) = Inr [''web1.example.com'', ''web2.example.com'']
   \<and> 1 < length [''web1.example.com'', ''web2.example.com'']
   \<and> extract_hosts ''web'' False (Some example_config)
       = Inl (AmbiguousHost [''web1.example.com'', ''web2.example.com''])
   \<and> run (example_args\<lparr>arg_mass := False\<rparr>) example_env
       = (1, \<lparr>connections = [],
              printed = [''Multiple hosts detected:'' @ newline,
                         ''- web1.example.com'' @ newline,
                         ''- web2.example.com'' @ newline,
                         ''Use --mass flag to execute commands on multiple hosts.'' @ newline]\<rparr>)"
proof -
  let ?a = "example_args\<lparr>arg_mass := False\<rparr>"
  have u: "split_user (arg_pattern ?a) = ([], ''web'')"
    by (simp add: split_user_def example_args_def)
  have m: "matching_hosts ''web'' (env_config example_env)
      = Inr [''web1.example.com'', ''web2.example.com'']"
    by (simp add: example_env_def matching_hosts_def example_config_parsed match_eval)
  have l: "1 < length [''web1.example.com'', ''web2.example.com'']" by simp
  have n: "\<not> arg_mass ?a" by simp
  show ?thesis
    using ambiguous_hosts_rejected [OF u m l n] u m
    by (simp add: example_args_def example_env_def)
qed

subsection \<open>Input validation and the exit status\<close>

lemma check_forbidden_found:
  "\<exists>cmd\<in>set xs. contains cmd s \<Longrightarrow>
     \<exists>cmd\<in>set xs. check_forbidden xs s = Inl (RestrictedCommand cmd) \<and> contains cmd s"
  by (induction xs) auto

lemma check_forbidden_clean:
  "\<forall>cmd\<in>set xs. \<not> contains cmd s \<Longrightarrow> check_forbidden xs s = Inr ()"
  by (induction xs) auto

lemma contains_Nil_right: "contains cmd [] = (cmd = [])"
  by (simp add: contains_def)

text \<open>
  C8. In mass mode, when a restricted word (\<open>shutdown\<close>, \<open>poweroff\<close>, \<open>reboot\<close>)
  occurs anywhere in the command tokens joined by spaces, input validation rejects the
  run with that word: the run ends with status 1 before host resolution, with no
  connection made and nothing executed.
\<close>

theorem restricted_command_rejected:
  assumes "arg_mass a"
    and "\<exists>cmd\<in>set forbidden_commands. contains cmd (join '' '' (arg_command a))"
  shows "(\<exists>cmd\<in>set forbidden_commands.
            contains cmd (join '' '' (arg_command a))
            \<and> validate_input a = Inl (RestrictedCommand cmd))
       \<and> run a e = (1, initial_world)
       \<and> connections (snd (xssh_main a e)) = []"
proof -
  have ne: "arg_command a \<noteq> []"
    using assms(2) by (auto simp: forbidden_commands_def contains_Nil_right)
  obtain cmd where cmd: "cmd \<in> set forbidden_commands"
      "contains cmd (join '' '' (arg_command a))"
      "validate_command (arg_command a) = Inl (RestrictedCommand cmd)"
    using check_forbidden_found [OF assms(2)] by (auto simp: validate_command_def)
  have v: "validate_input a = Inl (RestrictedCommand cmd)"
    using assms(1) ne cmd(3) by (simp add: validate_input_def)
  then have r: "run a e = (1, initial_world)"
    by (simp add: run_def)
  then have "connections (snd (xssh_main a e)) = []"
    by (simp add: xssh_main_def initial_world_def)
  then show ?thesis using cmd v r by blast
qed

theorem restricted_command_rejected_witness:
  "arg_mass (example_args\<lparr>arg_command := [''sudo'', ''shutdown'', ''-h'', ''now'']\<rparr>)
   \<and> list_ex (\<lambda>cmd. contains cmd (join '' '' [''sudo'', ''shutdown'', ''-h'', ''now'']))
        forbidden_commands
   \<and> validate_input (example_args\<lparr>arg_command := [''sudo'', ''shutdown'', ''-h'', ''now'']\<rparr>)
       = Inl (RestrictedCommand ''shutdown'')
   \<and> run (example_args\<lparr>arg_command := [''sudo'', ''shutdown'', ''-h'', ''now'']\<rparr>) example_env
       = (1, \<lparr>connections = [], printed = []\<rparr>)"
proof -
  let ?a = "example_args\<lparr>arg_command := [''sudo'', ''shutdown'', ''-h'', ''now'']\<rparr>"
  have m: "arg_mass ?a" by (simp add: example_args_def)
  have c: "contains ''shutdown'' (join '' '' (arg_command ?a))"
    by (simp add: contains_def sublist_code(3))
  then have f: "\<exists>cmd\<in>set forbidden_commands. contains cmd (join '' '' (arg_command ?a))"
    by (simp add: forbidden_commands_def)
  have v: "validate_input ?a = Inl (RestrictedCommand ''shutdown'')"
    using c by (simp add: validate_input_def validate_command_def forbidden_commands_def
        example_args_def)
  have "run ?a example_env = (1, initial_world)"
    using restricted_command_rejected [OF m f, of example_env] by blast
  then show ?thesis
    using m f v by (simp add: initial_world_def list_ex_iff)
qed

text \<open>
  C10. In mass mode with an empty command token list, input validation rejects the run:
  it ends with status 1 before host resolution, with no connection made.
\<close>

theorem mass_requires_command:
  assumes "arg_mass a" and "arg_command a = []"
  shows "validate_input a = Inl MassRequiresCommand
       \<and> exit_code_of MassRequiresCommand = 1
       \<and> run a e = (1, initial_world)
       \<and> connections (snd (xssh_main a e)) = []"
proof -
  have v: "validate_input a = Inl MassRequiresCommand"
    using assms by (simp add: validate_input_def)
  then have r: "run a e = (1, initial_world)"
    by (simp add: run_def)
  then have "connections (snd (xssh_main a e)) = []"
    by (simp add: xssh_main_def initial_world_def)
  then show ?thesis using v r by simp
qed

theorem mass_requires_command_witness:
  "arg_mass (example_args\<lparr>arg_command := []\<rparr>)
   \<and> arg_command (example_args\<lparr>arg_command := []\<rparr>) = []
   \<and> validate_input (example_args\<lparr>arg_command := []\<rparr>) = Inl MassRequiresCommand
   \<and> run (example_args\<lparr>arg_command := []\<rparr>) example_env
       = (1, \<lparr>connections = [], printed = []\<rparr>)"
proof -
  let ?a = "example_args\<lparr>arg_command := []\<rparr>"
  have m: "arg_mass ?a" by (simp add: example_args_def)
  have c: "arg_command ?a = []" by simp
  show ?thesis
    using mass_requires_command [OF m c, of example_env] m
    by (simp add: initial_world_def)
qed

lemma sublist_map_iff:
  "sublist ys (map f xs) \<longleftrightarrow> (\<exists>piece. sublist piece xs \<and> map f piece = ys)"
proof
  assume "sublist ys (map f xs)"
  then obtain ps ss where "map f xs = ps @ ys @ ss"
    by (auto simp: sublist_def)
  then have "take (length ys) (drop (length ps) (map f xs)) = ys"
    by simp
  then have m: "map f (take (length ys) (drop (length ps) xs)) = ys"
    by (simp add: take_map drop_map)
  have "xs = take (length ps) xs @ take (length ys) (drop (length ps) xs)
      @ drop (length ys) (drop (length ps) xs)"
    by (simp only: append_take_drop_id)
  then have "sublist (take (length ys) (drop (length ps) xs)) xs"
    unfolding sublist_def by blast
  with m show "\<exists>piece. sublist piece xs \<and> map f piece = ys"
    by blast
next
  assume "\<exists>piece. sublist piece xs \<and> map f piece = ys"
  then obtain piece ps ss where "xs = ps @ piece @ ss" "map f piece = ys"
    by (auto simp: sublist_def)
  then have "map f xs = map f ps @ ys @ map f ss" by simp
  then show "sublist ys (map f xs)"
    unfolding sublist_def by blast
qed

lemma contains_lower:
  "contains (lower word) (lower text) = contains_ignoring_case word text"
  by (simp add: contains_def contains_ignoring_case_def lower_def sublist_map_iff)

lemma lower_error: "lower ''error'' = ''error''" and lower_not_found: "lower ''not found'' = ''not found''"
  by (simp_all add: lower_def lower_char_def)

text \<open>
  C6. When the command has run on the host: a remote exit status other than zero is the
  exit code of the execution; with a remote exit status of zero the exit code is 127 if
  and only if the combined output (standard output, then standard error) holds
  \<open>error\<close> or \<open>not found\<close> when case is ignored, and 0 otherwise.
\<close>

theorem exit_status_policy:
  assumes "env_remote e host username = Session session"
    and "wrap_remote_command (env_mkfifo e host) (SUDO_MODE g) (COMMAND g) = remote_cmd"
    and "remote_cmd \<noteq> []"
    and "session remote_cmd (SUDO_MODE g) = ExecDone out err status"
  shows "fst (execute_ssh g username e host verbose_prefix) =
           (if status \<noteq> 0 then status
            else if contains_ignoring_case ''error'' (out @ err)
                  \<or> contains_ignoring_case ''not found'' (out @ err) then 127
            else 0)"
proof -
  have "contains ''error'' (lower (out @ err)) = contains_ignoring_case ''error'' (out @ err)"
    using contains_lower [of "''error''" "out @ err"] by (simp only: lower_error)
  moreover have "contains ''not found'' (lower (out @ err))
      = contains_ignoring_case ''not found'' (out @ err)"
    using contains_lower [of "''not found''" "out @ err"] by (simp only: lower_not_found)
  ultimately show ?thesis
    using assms by (simp add: execute_ssh_def Let_def)
qed


theorem exit_status_policy_witness:
  "fst (execute_ssh example_globals [] (scripted_env (ExecDone [] ''permission denied'' 2))
          ''web1'' []) = 2
   \<and> fst (execute_ssh example_globals [] (scripted_env (ExecDone ''sh: uptime: Not Found'' [] 0))
          ''web1'' []) = 127
   \<and> fst (execute_ssh example_globals [] (scripted_env (ExecDone ''0 ERRORs'' [] 0))
          ''web1'' []) = 127
   \<and> fst (execute_ssh example_globals [] (scripted_env (ExecDone ''up 3 days'' [] 0))
          ''web1'' []) = 0"
proof -
  have s: "env_remote (scripted_env r) ''web1'' [] = Session (\<lambda>cmd pty. r)" for r
    by (simp add: scripted_env_def)
  have c: "wrap_remote_command (env_mkfifo (scripted_env r) ''web1'') (SUDO_MODE example_globals)
      (COMMAND example_globals) = ''uptime''" for r
    by (simp add: example_globals_def wrap_remote_command_def handle_process_substitution_def
        findall_def)
  have n: "''uptime'' \<noteq> []" by simp
  have e: "contains_ignoring_case w x = contains (lower w) (lower x)" for w x
    by (simp add: contains_lower)
  have "fst (execute_ssh example_globals [] (scripted_env (ExecDone [] ''permission denied'' 2))
          ''web1'' []) = 2"
    using exit_status_policy [OF s [of "ExecDone [] ''permission denied'' 2"] c [of "ExecDone [] ''permission denied'' 2"] n,
        where out = "[]" and err = "''permission denied''" and status = 2 and verbose_prefix = "[]"]
    by simp
  moreover have "fst (execute_ssh example_globals []
      (scripted_env (ExecDone ''sh: uptime: Not Found'' [] 0)) ''web1'' []) = 127"
    using exit_status_policy [OF s [of "ExecDone ''sh: uptime: Not Found'' [] 0"] c [of "ExecDone ''sh: uptime: Not Found'' [] 0"] n,
        where out = "''sh: uptime: Not Found''" and err = "[]" and status = 0 and verbose_prefix = "[]"]
    by (simp add: e contains_def lower_def lower_char_def sublist_code(3))
  moreover have "fst (execute_ssh example_globals []
      (scripted_env (ExecDone ''0 ERRORs'' [] 0)) ''web1'' []) = 127"
    using exit_status_policy [OF s [of "ExecDone ''0 ERRORs'' [] 0"] c [of "ExecDone ''0 ERRORs'' [] 0"] n,
        where out = "''0 ERRORs''" and err = "[]" and status = 0 and verbose_prefix = "[]"]
    by (simp add: e contains_def lower_def lower_char_def sublist_code(3))
  moreover have "fst (execute_ssh example_globals []
      (scripted_env (ExecDone ''up 3 days'' [] 0)) ''web1'' []) = 0"
    using exit_status_policy [OF s [of "ExecDone ''up 3 days'' [] 0"] c [of "ExecDone ''up 3 days'' [] 0"] n,
        where out = "''up 3 days''" and err = "[]" and status = 0 and verbose_prefix = "[]"]
    by (simp add: e contains_def lower_def lower_char_def sublist_code(3))
  ultimately show ?thesis by blast
qed

subsection \<open>Fleet execution\<close>

lemma print_files_listing:
  "set fs \<subseteq> fst ` set files \<Longrightarrow>
     print_files files fs w = (None, w\<lparr>printed := printed w @ listing_order_report files fs\<rparr>)"
proof (induction fs arbitrary: w)
  case Nil
  show ?case by (simp add: listing_order_report_def)
next
  case (Cons f fs)
  then have "f \<in> fst ` set files" and fs: "set fs \<subseteq> fst ` set files"
    by auto
  then obtain s where s: "map_of files f = Some s"
    by (metis map_of_eq_None_iff not_Some_eq)
  show ?case
    using s Cons.IH [OF fs] by (simp add: listing_order_report_def)
qed

lemma tmpdir_files_names:
  "map fst (tmpdir_files rs) =
     map (\<lambda>h. h @ ''.out'') (map fst (filter (\<lambda>r. snd (snd r) \<noteq> None) rs))"
  by (induction rs rule: tmpdir_files.induct) simp_all

lemma distinct_tmpdir_files:
  assumes "distinct (map fst rs)"
  shows "distinct (map fst (tmpdir_files rs))"
proof -
  have "distinct (map fst (filter (\<lambda>r. snd (snd r) \<noteq> None) rs))"
    using assms by (rule distinct_map_filter)
  moreover have "inj_on (\<lambda>h :: string. h @ ''.out'') A" for A
    by (simp add: inj_on_def)
  ultimately show ?thesis
    unfolding tmpdir_files_names
    by (intro iffD2 [OF distinct_map]) blast
qed

lemma thread_results_hosts: "map fst (thread_results g username e hosts) = hosts"
  by (simp add: thread_results_def comp_def)

lemma extract_hosts_distinct:
  assumes "extract_hosts pat mass config = Inr (u, hosts)"
  shows "distinct hosts"
proof -
  obtain username host_pattern where sp: "split_user pat = (username, host_pattern)"
    by (cases "split_user pat") auto
  show ?thesis
  proof (cases config)
    case None
    then show ?thesis
      using assms by (auto simp: extract_hosts_cases [OF sp] matching_hosts_def)
  next
    case (Some lines)
    obtain reg where "parse_lines lines empty_registry = Inr reg"
      using parse_lines_total by blast
    then have "matching_hosts host_pattern config
        = Inr (resolve_spec host_pattern (hostnames reg) (hosts_set reg))"
      using Some matching_hosts_resolve by simp
    moreover have "distinct (resolve_spec host_pattern (hostnames reg) (hosts_set reg))"
      by (simp add: resolve_spec_def distinct_dedup_first)
    ultimately show ?thesis
      using assms by (auto simp: extract_hosts_cases [OF sp] split: if_splits)
  qed
qed

lemma mset_listing_order_report:
  assumes "distinct (map fst files)" and "mset fs = mset (map fst files)"
  shows "mset (listing_order_report files fs) = mset (map (\<lambda>(n, s). s @ newline) files)"
proof -
  let ?h = "\<lambda>f. (case map_of files f of None \<Rightarrow> [] | Some s \<Rightarrow> s) @ newline"
  have "mset (map ?h fs) = image_mset ?h (mset fs)" by simp
  also have "\<dots> = image_mset ?h (mset (map fst files))" by (simp only: assms(2))
  also have "\<dots> = mset (map (\<lambda>p. ?h (fst p)) files)"
    by (simp add: multiset.map_comp comp_def)
  also have "map (\<lambda>p. ?h (fst p)) files = map (\<lambda>(n, s). s @ newline) files"
    using assms(1) by (auto intro!: map_cong)
  finally show ?thesis by (simp add: listing_order_report_def)
qed

text \<open>
  C2 (as the code has it). In mass mode, for the hosts that resolution yields: every
  host's execution has finished before anything is printed, and the final report is the
  texts of the per-host files, each once, in the order in which the listing of the
  temporary directory names the files. The report is a rearrangement of the report in
  host-list order; which one, the directory listing decides.
\<close>

theorem parallel_execute_report:
  assumes "MASS_MODE g"
    and "extract_hosts (PATTERN g) (MASS_MODE g) (env_config e) = Inr (username, hosts)"
    and "files = tmpdir_files (thread_results g username e hosts)"
    and "mset (env_listdir e (map fst files)) = mset (map fst files)"
  shows "parallel_execute g username e hosts w =
           (rmdir files, w\<lparr>connections := connections w @ hosts,
                    printed := printed w
                      @ listing_order_report files (env_listdir e (map fst files))\<rparr>)
       \<and> mset (listing_order_report files (env_listdir e (map fst files)))
           = mset (host_order_report g username e hosts)"
proof -
  have d: "distinct hosts"
    using assms(2) by (rule extract_hosts_distinct)
  then have df: "distinct (map fst files)"
    unfolding assms(3) by (intro distinct_tmpdir_files) (simp add: thread_results_hosts)
  have "set (env_listdir e (map fst files)) = set (map fst files)"
    using assms(4) by (rule mset_eq_setD)
  then have sub: "set (env_listdir e (map fst files)) \<subseteq> fst ` set files"
    by simp
  have "parallel_execute g username e hosts w =
           (rmdir files, w\<lparr>connections := connections w @ hosts,
                    printed := printed w
                      @ listing_order_report files (env_listdir e (map fst files))\<rparr>)"
    using assms(1)
    by (simp add: parallel_execute_def assms(3) [symmetric] Let_def print_files_listing [OF sub])
  moreover have "mset (listing_order_report files (env_listdir e (map fst files)))
           = mset (host_order_report g username e hosts)"
    using mset_listing_order_report [OF df assms(4)]
    by (simp add: host_order_report_def assms(3))
  ultimately show ?thesis by blast
qed


lemmas run_eval = execute_ssh_def example_env_def example_remote_def flaky_env_def
  flaky_remote_def example_globals_def thread_results_def verbose_prefix_of_def
  append_file_def connection_failed_def wrap_remote_command_def
  handle_process_substitution_def findall_def example_mkfifo_def contains_def lower_def
  lower_char_def newline_def sublist_code(3) Let_def

lemma example_validated: "validate_input example_args = Inr example_globals"
  by (simp add: validate_input_def example_args_def example_globals_def validate_command_def
      forbidden_commands_def ssh_option_def contains_def sublist_code(3))

lemma example_thread_results:
  "thread_results example_globals [] example_env [''web1.example.com'', ''web2.example.com''] =
     [(''web1.example.com'', 0, Some (''up on web1.example.com'' @ newline)),
      (''web2.example.com'', 0, Some (''up on web2.example.com'' @ newline))]"
  by (simp add: run_eval)

theorem parallel_execute_report_witness:
  "MASS_MODE example_globals
   \<and> extract_hosts (PATTERN example_globals) (MASS_MODE example_globals) (env_config example_env)
       = Inr ([], [''web1.example.com'', ''web2.example.com''])
   \<and> mset (env_listdir example_env [''web1.example.com.out'', ''web2.example.com.out''])
       = mset [''web1.example.com.out'', ''web2.example.com.out'']
   \<and> parallel_execute example_globals [] example_env
         [''web1.example.com'', ''web2.example.com''] initial_world
       = (Some DirectoryNotEmpty,
          \<lparr>connections = [''web1.example.com'', ''web2.example.com''],
            printed = [''up on web2.example.com'' @ newline @ newline,
                       ''up on web1.example.com'' @ newline @ newline]\<rparr>)
   \<and> mset [''up on web2.example.com'' @ newline @ newline,
            ''up on web1.example.com'' @ newline @ newline]
       = mset (host_order_report example_globals [] example_env
                 [''web1.example.com'', ''web2.example.com''])"
proof -
  let ?hosts = "[''web1.example.com'', ''web2.example.com'']"
  let ?files = "[(''web1.example.com.out'', ''up on web1.example.com'' @ newline),
      (''web2.example.com.out'', ''up on web2.example.com'' @ newline)]"
  have m: "MASS_MODE example_globals"
    by (simp add: example_globals_def)
  have x: "extract_hosts (PATTERN example_globals) (MASS_MODE example_globals)
      (env_config example_env) = Inr ([], ?hosts)"
    by (simp add: example_globals_def example_env_def example_config_web)
  have f: "?files = tmpdir_files (thread_results example_globals [] example_env ?hosts)"
    by (simp add: example_thread_results)
  have l: "mset (env_listdir example_env (map fst ?files)) = mset (map fst ?files)"
    by (simp add: example_env_def)
  have r: "listing_order_report ?files (env_listdir example_env (map fst ?files))
      = [''up on web2.example.com'' @ newline @ newline,
         ''up on web1.example.com'' @ newline @ newline]"
    by (simp add: listing_order_report_def example_env_def)
  show ?thesis
    using parallel_execute_report [OF m x f l, of initial_world, unfolded r] m x l
    by (simp add: initial_world_def rmdir_def)
qed

text \<open>
  C2 as stated fails: with a directory listing that names the newest file first, the run
  on \<open>web1.example.com\<close> and \<open>web2.example.com\<close> prints the output of
  \<open>web2.example.com\<close> first, which is not the order of the host list.
\<close>

theorem host_order_counterexample:
  "validate_input example_args = Inr example_globals
   \<and> extract_hosts ''web'' True (Some example_config)
       = Inr ([], [''web1.example.com'', ''web2.example.com''])
   \<and> run example_args example_env
       = (1, \<lparr>connections = [''web1.example.com'', ''web2.example.com''],
              printed = [''up on web2.example.com'' @ newline @ newline,
                         ''up on web1.example.com'' @ newline @ newline]\<rparr>)
   \<and> host_order_report example_globals [] example_env
         [''web1.example.com'', ''web2.example.com'']
       = [''up on web1.example.com'' @ newline @ newline,
          ''up on web2.example.com'' @ newline @ newline]
   \<and> [''up on web2.example.com'' @ newline @ newline,
       ''up on web1.example.com'' @ newline @ newline]
       \<noteq> [''up on web1.example.com'' @ newline @ newline,
          ''up on web2.example.com'' @ newline @ newline]"
proof -
  have x: "extract_hosts (PATTERN example_globals) (MASS_MODE example_globals)
      (env_config example_env)
      = Inr ([], [''web1.example.com'', ''web2.example.com''])"
    by (simp add: example_globals_def example_env_def example_config_web)
  have p: "parallel_execute example_globals [] example_env
      [''web1.example.com'', ''web2.example.com''] initial_world
      = (Some DirectoryNotEmpty,
         \<lparr>connections = [''web1.example.com'', ''web2.example.com''],
              printed = [''up on web2.example.com'' @ newline @ newline,
                         ''up on web1.example.com'' @ newline @ newline]\<rparr>)"
    by (simp add: parallel_execute_def example_thread_results Let_def initial_world_def
        rmdir_def)
      (simp add: example_env_def example_globals_def rmdir_def)
  have r: "run example_args example_env
       = (1, \<lparr>connections = [''web1.example.com'', ''web2.example.com''],
              printed = [''up on web2.example.com'' @ newline @ newline,
                         ''up on web1.example.com'' @ newline @ newline]\<rparr>)"
    by (simp add: run_def example_validated x p) (simp add: example_globals_def)
  have h: "host_order_report example_globals [] example_env
         [''web1.example.com'', ''web2.example.com'']
       = [''up on web1.example.com'' @ newline @ newline,
          ''up on web2.example.com'' @ newline @ newline]"
    by (simp add: host_order_report_def example_thread_results)
  show ?thesis
    using r h by (simp add: example_validated example_config_web)
qed

lemma execute_ssh_connect_error:
  assumes "env_remote e host username = ConnectError x"
  shows "execute_ssh g username e host (verbose_prefix_of g host)
      = (1, Some (header g host @ connection_failed host x))"
  using assms
  by (simp add: execute_ssh_def verbose_prefix_of_def header_def append_file_def)

lemma execute_ssh_exec_error:
  assumes "env_remote e host username = Session session"
    and "wrap_remote_command (env_mkfifo e host) (SUDO_MODE g) (COMMAND g) = cmd"
    and "cmd \<noteq> []"
    and "session cmd (SUDO_MODE g) = ExecError x"
  shows "execute_ssh g username e host (verbose_prefix_of g host)
      = (1, Some (header g host @ connection_failed host x))"
  using assms
  by (simp add: execute_ssh_def verbose_prefix_of_def header_def append_file_def)

lemma execute_ssh_success:
  assumes "env_remote e host username = Session session"
    and "wrap_remote_command (env_mkfifo e host) (SUDO_MODE g) (COMMAND g) = cmd"
    and "cmd \<noteq> []"
    and "session cmd (SUDO_MODE g) = ExecDone out err 0"
    and "\<not> contains_ignoring_case ''error'' (out @ err)"
    and "\<not> contains_ignoring_case ''not found'' (out @ err)"
  shows "execute_ssh g username e host (verbose_prefix_of g host)
      = (0, Some (header g host @ out @ err))"
proof -
  have "contains ''error'' (lower (out @ err)) = contains_ignoring_case ''error'' (out @ err)"
    using contains_lower [of "''error''" "out @ err"] by (simp only: lower_error)
  then have "\<not> contains ''error'' (lower (out @ err))"
    using assms(5) by simp
  moreover have "contains ''not found'' (lower (out @ err))
      = contains_ignoring_case ''not found'' (out @ err)"
    using contains_lower [of "''not found''" "out @ err"] by (simp only: lower_not_found)
  then have "\<not> contains ''not found'' (lower (out @ err))"
    using assms(6) by simp
  ultimately show ?thesis
    using assms(1-4)
    by (simp add: execute_ssh_def verbose_prefix_of_def header_def append_file_def Let_def)
qed

lemma execute_ssh_other_host:
  "h \<noteq> host \<Longrightarrow>
     execute_ssh g username (e\<lparr>env_remote := (env_remote e)(h := r)\<rparr>) host p
       = execute_ssh g username e host p"
  by (simp add: execute_ssh_def Let_def cong: connect_result.case_cong)

lemma two_files_report:
  assumes "a \<noteq> b" and "mset listing = mset [a @ ''.out'', b @ ''.out'']"
  shows "\<exists>report. print_files [(a @ ''.out'', s), (b @ ''.out'', t)] listing w
             = (None, w\<lparr>printed := printed w @ report\<rparr>)
           \<and> mset report = {#s @ newline, t @ newline#}"
proof -
  let ?files = "[(a @ ''.out'', s), (b @ ''.out'', t)]"
  have d: "distinct (map fst ?files)"
    using assms(1) by simp
  have l: "mset listing = mset (map fst ?files)"
    using assms(2) by simp
  then have "set listing = set (map fst ?files)"
    by (rule mset_eq_setD)
  then have sub: "set listing \<subseteq> fst ` set ?files"
    by simp
  have "mset (listing_order_report ?files listing) = {#s @ newline, t @ newline#}"
    using mset_listing_order_report [OF d l] by simp
  then show ?thesis
    using print_files_listing [OF sub, of w] by blast
qed

lemma fleet_failure_folded:
  assumes h: "MASS_MODE g \<and> a \<noteq> b
        \<and> env_remote e a username = ConnectError x
        \<and> env_remote e b username = Session session
        \<and> wrap_remote_command (env_mkfifo e b) (SUDO_MODE g) (COMMAND g) = cmd \<and> cmd \<noteq> []
        \<and> session cmd (SUDO_MODE g) = ExecDone out err 0
        \<and> \<not> contains_ignoring_case ''error'' (out @ err)
        \<and> \<not> contains_ignoring_case ''not found'' (out @ err)
        \<and> mset (env_listdir e [a @ ''.out'', b @ ''.out'']) = mset [a @ ''.out'', b @ ''.out'']"
  shows "thread_results g username e [a, b]
          = [(a, 1, Some (header g a @ connection_failed a x)),
             (b, 0, Some (header g b @ out @ err))]
        \<and> (\<exists>report.
              parallel_execute g username e [a, b] initial_world
                = (Some DirectoryNotEmpty, \<lparr>connections = [a, b], printed = report\<rparr>)
              \<and> mset report = {#header g a @ connection_failed a x @ newline,
                                 header g b @ out @ err @ newline#})"
proof (intro conjI)
  have ra: "execute_ssh g username e a (verbose_prefix_of g a)
      = (1, Some (header g a @ connection_failed a x))"
    using h execute_ssh_connect_error by blast
  have rb: "execute_ssh g username e b (verbose_prefix_of g b)
      = (0, Some (header g b @ out @ err))"
    using h execute_ssh_success by blast
  show t: "thread_results g username e [a, b]
          = [(a, 1, Some (header g a @ connection_failed a x)),
             (b, 0, Some (header g b @ out @ err))]"
    by (simp add: thread_results_def ra rb)
  obtain report where
    "print_files [(a @ ''.out'', header g a @ connection_failed a x),
        (b @ ''.out'', header g b @ out @ err)]
        (env_listdir e [a @ ''.out'', b @ ''.out''])
        (initial_world\<lparr>connections := connections initial_world @ [a, b]\<rparr>)
      = (None, (initial_world\<lparr>connections := connections initial_world @ [a, b]\<rparr>)
           \<lparr>printed := printed (initial_world\<lparr>connections := connections initial_world @ [a, b]\<rparr>)
              @ report\<rparr>)"
    and "mset report = {#(header g a @ connection_failed a x) @ newline,
        (header g b @ out @ err) @ newline#}"
    using two_files_report [of a b "env_listdir e [a @ ''.out'', b @ ''.out'']"] h by blast
  then show "\<exists>report.
              parallel_execute g username e [a, b] initial_world
                = (Some DirectoryNotEmpty, \<lparr>connections = [a, b], printed = report\<rparr>)
              \<and> mset report = {#header g a @ connection_failed a x @ newline,
                                 header g b @ out @ err @ newline#}"
    using h by (simp add: parallel_execute_def t initial_world_def rmdir_def)
qed

lemma execute_ssh_connect_error_text:
  assumes "env_remote e host username = ConnectError x"
  shows "execute_ssh g username e host p
      = (1, Some ((if VERBOSE_MODE g \<and> p \<noteq> [] then p @ [CHR 0x0A] else [])
                  @ ''Connection failed on '' @ host @ '': '' @ x @ [CHR 0x0A]))"
  using assms
  by (simp add: execute_ssh_def append_file_def connection_failed_def newline_def)

lemma execute_ssh_exec_error_text:
  assumes "env_remote e host username = Session session"
    and "wrap_remote_command (env_mkfifo e host) (SUDO_MODE g) (COMMAND g) = cmd"
    and "cmd \<noteq> []"
    and "session cmd (SUDO_MODE g) = ExecError x"
  shows "execute_ssh g username e host p
      = (1, Some ((if VERBOSE_MODE g \<and> p \<noteq> [] then p @ [CHR 0x0A] else [])
                  @ ''Connection failed on '' @ host @ '': '' @ x @ [CHR 0x0A]))"
  using assms
  by (simp add: execute_ssh_def append_file_def connection_failed_def newline_def)

lemma thread_results_siblings:
  "filter (\<lambda>res. fst res \<noteq> h)
       (thread_results g username (e\<lparr>env_remote := (env_remote e)(h := r)\<rparr>) hosts)
     = filter (\<lambda>res. fst res \<noteq> h) (thread_results g username e hosts)"
proof -
  define e' where "e' = e\<lparr>env_remote := (env_remote e)(h := r)\<rparr>"
  have o: "execute_ssh g username e' host p = execute_ssh g username e host p"
    if "host \<noteq> h" for host p
    unfolding e'_def using that execute_ssh_other_host [of h host] by blast
  have "filter (\<lambda>res. fst res \<noteq> h)
          (map (\<lambda>host. (host, execute_ssh g username e' host (verbose_prefix_of g host))) hosts)
        = filter (\<lambda>res. fst res \<noteq> h)
          (map (\<lambda>host. (host, execute_ssh g username e host (verbose_prefix_of g host))) hosts)"
    by (induction hosts) (simp_all add: o)
  then show ?thesis
    unfolding thread_results_def e'_def .
qed

text \<open>
  C7. A failure to connect to a host, or to run the command there, gives that host's
  execution the exit code 1, and that host's output then ends with the line
  \<open>Connection failed on\<close>, the host, a colon and the text of the exception. The
  execution on a host does not depend on what another host does: the results of the
  other hosts of a fleet stay the same whatever happens to the connection of one host,
  and a fleet run has one result for each host. With the hosts \<open>a\<close> and \<open>b\<close>, where
  the connection to \<open>a\<close> fails and the command succeeds on \<open>b\<close>, the run has the two
  results (\<open>a\<close> failed with the message, \<open>b\<close> successful) and the final report holds
  exactly the two outputs.
\<close>

theorem connection_failure_isolated:
  "(\<forall>p. env_remote e host username = ConnectError x \<longrightarrow>
      execute_ssh g username e host p
        = (1, Some ((if VERBOSE_MODE g \<and> p \<noteq> [] then p @ [CHR 0x0A] else [])
                    @ ''Connection failed on '' @ host @ '': '' @ x @ [CHR 0x0A])))
   \<and> (\<forall>p session cmd.
        env_remote e host username = Session session
        \<and> wrap_remote_command (env_mkfifo e host) (SUDO_MODE g) (COMMAND g) = cmd \<and> cmd \<noteq> []
        \<and> session cmd (SUDO_MODE g) = ExecError x \<longrightarrow>
        execute_ssh g username e host p
          = (1, Some ((if VERBOSE_MODE g \<and> p \<noteq> [] then p @ [CHR 0x0A] else [])
                      @ ''Connection failed on '' @ host @ '': '' @ x @ [CHR 0x0A])))
   \<and> (\<forall>h r p. h \<noteq> host \<longrightarrow>
        execute_ssh g username (e\<lparr>env_remote := (env_remote e)(h := r)\<rparr>) host p
          = execute_ssh g username e host p)
   \<and> (\<forall>h r. filter (\<lambda>res. fst res \<noteq> h)
                 (thread_results g username (e\<lparr>env_remote := (env_remote e)(h := r)\<rparr>) hosts)
               = filter (\<lambda>res. fst res \<noteq> h) (thread_results g username e hosts))
   \<and> map fst (thread_results g username e hosts) = hosts
   \<and> (\<forall>a b session cmd out err.
        MASS_MODE g \<and> a \<noteq> b
        \<and> env_remote e a username = ConnectError x
        \<and> env_remote e b username = Session session
        \<and> wrap_remote_command (env_mkfifo e b) (SUDO_MODE g) (COMMAND g) = cmd \<and> cmd \<noteq> []
        \<and> session cmd (SUDO_MODE g) = ExecDone out err 0
        \<and> \<not> contains_ignoring_case ''error'' (out @ err)
        \<and> \<not> contains_ignoring_case ''not found'' (out @ err)
        \<and> mset (env_listdir e [a @ ''.out'', b @ ''.out'']) = mset [a @ ''.out'', b @ ''.out'']
        \<longrightarrow>
        thread_results g username e [a, b]
          = [(a, 1, Some ((if VERBOSE_MODE g then ''--- '' @ a @ '' ---'' @ [CHR 0x0A] else [])
                          @ ''Connection failed on '' @ a @ '': '' @ x @ [CHR 0x0A])),
             (b, 0, Some ((if VERBOSE_MODE g then ''--- '' @ b @ '' ---'' @ [CHR 0x0A] else [])
                          @ out @ err))]
        \<and> (\<exists>report.
              parallel_execute g username e [a, b] initial_world
                = (Some DirectoryNotEmpty, \<lparr>connections = [a, b], printed = report\<rparr>)
              \<and> mset report =
                  {#(if VERBOSE_MODE g then ''--- '' @ a @ '' ---'' @ [CHR 0x0A] else [])
                      @ ''Connection failed on '' @ a @ '': '' @ x @ [CHR 0x0A, CHR 0x0A],
                    (if VERBOSE_MODE g then ''--- '' @ b @ '' ---'' @ [CHR 0x0A] else [])
                      @ out @ err @ [CHR 0x0A]#}))"
proof (intro conjI allI impI)
  fix p assume "env_remote e host username = ConnectError x"
  then show "execute_ssh g username e host p
        = (1, Some ((if VERBOSE_MODE g \<and> p \<noteq> [] then p @ [CHR 0x0A] else [])
                    @ ''Connection failed on '' @ host @ '': '' @ x @ [CHR 0x0A]))"
    by (rule execute_ssh_connect_error_text)
next
  fix p session cmd
  assume a: "env_remote e host username = Session session
        \<and> wrap_remote_command (env_mkfifo e host) (SUDO_MODE g) (COMMAND g) = cmd \<and> cmd \<noteq> []
        \<and> session cmd (SUDO_MODE g) = ExecError x"
  show "execute_ssh g username e host p
          = (1, Some ((if VERBOSE_MODE g \<and> p \<noteq> [] then p @ [CHR 0x0A] else [])
                      @ ''Connection failed on '' @ host @ '': '' @ x @ [CHR 0x0A]))"
    by (rule execute_ssh_exec_error_text
        [OF a [THEN conjunct1] a [THEN conjunct2, THEN conjunct1]
          a [THEN conjunct2, THEN conjunct2, THEN conjunct1]
          a [THEN conjunct2, THEN conjunct2, THEN conjunct2]])
next
  fix h r p assume "h \<noteq> host"
  then show "execute_ssh g username (e\<lparr>env_remote := (env_remote e)(h := r)\<rparr>) host p
          = execute_ssh g username e host p"
    by (rule execute_ssh_other_host)
next
  fix h r
  show "filter (\<lambda>res. fst res \<noteq> h)
          (thread_results g username (e\<lparr>env_remote := (env_remote e)(h := r)\<rparr>) hosts)
        = filter (\<lambda>res. fst res \<noteq> h) (thread_results g username e hosts)"
    by (rule thread_results_siblings)
next
  show "map fst (thread_results g username e hosts) = hosts"
    by (rule thread_results_hosts)
next
  fix a b session cmd out err
  assume h: "MASS_MODE g \<and> a \<noteq> b
        \<and> env_remote e a username = ConnectError x
        \<and> env_remote e b username = Session session
        \<and> wrap_remote_command (env_mkfifo e b) (SUDO_MODE g) (COMMAND g) = cmd \<and> cmd \<noteq> []
        \<and> session cmd (SUDO_MODE g) = ExecDone out err 0
        \<and> \<not> contains_ignoring_case ''error'' (out @ err)
        \<and> \<not> contains_ignoring_case ''not found'' (out @ err)
        \<and> mset (env_listdir e [a @ ''.out'', b @ ''.out'']) = mset [a @ ''.out'', b @ ''.out'']"
  note f = fleet_failure_folded [OF h]
  show "thread_results g username e [a, b]
          = [(a, 1, Some ((if VERBOSE_MODE g then ''--- '' @ a @ '' ---'' @ [CHR 0x0A] else [])
                          @ ''Connection failed on '' @ a @ '': '' @ x @ [CHR 0x0A])),
             (b, 0, Some ((if VERBOSE_MODE g then ''--- '' @ b @ '' ---'' @ [CHR 0x0A] else [])
                          @ out @ err))]"
    using f [THEN conjunct1] by (simp add: header_def connection_failed_def newline_def)
  obtain report where r: "parallel_execute g username e [a, b] initial_world
        = (Some DirectoryNotEmpty, \<lparr>connections = [a, b], printed = report\<rparr>)"
    and m: "mset report = {#header g a @ connection_failed a x @ newline,
        header g b @ out @ err @ newline#}"
    using f [THEN conjunct2] by (elim exE conjE)
  have "mset report =
      {#(if VERBOSE_MODE g then ''--- '' @ a @ '' ---'' @ [CHR 0x0A] else [])
          @ ''Connection failed on '' @ a @ '': '' @ x @ [CHR 0x0A, CHR 0x0A],
        (if VERBOSE_MODE g then ''--- '' @ b @ '' ---'' @ [CHR 0x0A] else [])
          @ out @ err @ [CHR 0x0A]#}"
    using m by (simp add: header_def connection_failed_def newline_def)
  with r show "\<exists>report.
              parallel_execute g username e [a, b] initial_world
                = (Some DirectoryNotEmpty, \<lparr>connections = [a, b], printed = report\<rparr>)
              \<and> mset report =
                  {#(if VERBOSE_MODE g then ''--- '' @ a @ '' ---'' @ [CHR 0x0A] else [])
                      @ ''Connection failed on '' @ a @ '': '' @ x @ [CHR 0x0A, CHR 0x0A],
                    (if VERBOSE_MODE g then ''--- '' @ b @ '' ---'' @ [CHR 0x0A] else [])
                      @ out @ err @ [CHR 0x0A]#}"
    by blast
qed

theorem connection_failure_isolated_witness:
  "env_remote flaky_env ''web1.example.com'' [] = ConnectError ''timed out''
   \<and> execute_ssh example_globals [] flaky_env ''web1.example.com'' []
       = (1, Some (''Connection failed on web1.example.com: timed out'' @ [CHR 0x0A]))
   \<and> thread_results (example_globals\<lparr>VERBOSE_MODE := True\<rparr>) [] flaky_env
         [''web1.example.com'', ''web2.example.com'']
       = [(''web1.example.com'', 1,
           Some (''--- web1.example.com ---'' @ [CHR 0x0A]
                 @ ''Connection failed on web1.example.com: timed out'' @ [CHR 0x0A])),
          (''web2.example.com'', 0,
           Some (''--- web2.example.com ---'' @ [CHR 0x0A]
                 @ ''up on web2.example.com'' @ [CHR 0x0A]))]
   \<and> parallel_execute (example_globals\<lparr>VERBOSE_MODE := True\<rparr>) [] flaky_env
         [''web1.example.com'', ''web2.example.com''] initial_world
       = (Some DirectoryNotEmpty,
          \<lparr>connections = [''web1.example.com'', ''web2.example.com''],
            printed = [''--- web2.example.com ---'' @ [CHR 0x0A]
                         @ ''up on web2.example.com'' @ [CHR 0x0A, CHR 0x0A],
                       ''--- web1.example.com ---'' @ [CHR 0x0A]
                         @ ''Connection failed on web1.example.com: timed out''
                         @ [CHR 0x0A, CHR 0x0A]]\<rparr>)"
proof -
  let ?a = "''web1.example.com''" and ?b = "''web2.example.com''"
  let ?g = "example_globals\<lparr>VERBOSE_MODE := True\<rparr>"
  let ?out = "''up on web2.example.com'' @ newline"
  let ?session = "\<lambda>(cmd :: string) (pty :: bool). ExecDone ?out [] 0"
  have m: "MASS_MODE ?g"
    by (simp add: example_globals_def)
  have v: "VERBOSE_MODE ?g" and nv: "\<not> VERBOSE_MODE example_globals"
    by (simp_all add: example_globals_def)
  have ca: "env_remote flaky_env ?a [] = ConnectError ''timed out''"
    by (simp add: flaky_env_def flaky_remote_def)
  have cb: "env_remote flaky_env ?b [] = Session ?session"
    by (simp add: flaky_env_def flaky_remote_def)
  have w: "wrap_remote_command (env_mkfifo flaky_env ?b) (SUDO_MODE ?g) (COMMAND ?g) = ''uptime''"
    by (simp add: example_globals_def wrap_remote_command_def handle_process_substitution_def
        findall_def)
  have s: "?session ''uptime'' (SUDO_MODE ?g) = ExecDone ?out [] 0"
    by simp
  have e1: "\<not> contains_ignoring_case ''error'' (?out @ [])"
    by (simp add: contains_lower [symmetric] contains_def lower_def lower_char_def newline_def
        sublist_code(3))
  have e2: "\<not> contains_ignoring_case ''not found'' (?out @ [])"
    by (simp add: contains_lower [symmetric] contains_def lower_def lower_char_def newline_def
        sublist_code(3))
  have l: "mset (env_listdir flaky_env [?a @ ''.out'', ?b @ ''.out''])
      = mset [?a @ ''.out'', ?b @ ''.out'']"
    by (simp add: flaky_env_def example_env_def)
  have hyps: "MASS_MODE ?g \<and> ?a \<noteq> ?b
      \<and> env_remote flaky_env ?a [] = ConnectError ''timed out''
      \<and> env_remote flaky_env ?b [] = Session ?session
      \<and> wrap_remote_command (env_mkfifo flaky_env ?b) (SUDO_MODE ?g) (COMMAND ?g) = ''uptime''
      \<and> ''uptime'' \<noteq> []
      \<and> ?session ''uptime'' (SUDO_MODE ?g) = ExecDone ?out [] 0
      \<and> \<not> contains_ignoring_case ''error'' (?out @ [])
      \<and> \<not> contains_ignoring_case ''not found'' (?out @ [])
      \<and> mset (env_listdir flaky_env [?a @ ''.out'', ?b @ ''.out''])
          = mset [?a @ ''.out'', ?b @ ''.out'']"
    by (intro conjI m ca cb w s e1 e2 l) simp_all
  note c1 = connection_failure_isolated
    [THEN conjunct1, rule_format,
      where g = example_globals and e = flaky_env and username = "[]" and x = "''timed out''"
        and host = ?a and p = "[]"]
  note c6 = connection_failure_isolated
    [THEN conjunct2, THEN conjunct2, THEN conjunct2, THEN conjunct2, THEN conjunct2,
      rule_format,
      where g = ?g and e = flaky_env and username = "[]" and x = "''timed out''"
        and a = ?a and b = ?b and session = ?session and cmd = "''uptime''" and out = ?out
        and err = "[]"]
  have r1: "execute_ssh example_globals [] flaky_env ?a []
      = (1, Some (''Connection failed on web1.example.com: timed out'' @ [CHR 0x0A]))"
    using c1 [OF ca] nv by simp
  have r2: "thread_results ?g [] flaky_env [?a, ?b]
      = [(?a, 1, Some (''--- web1.example.com ---'' @ [CHR 0x0A]
                 @ ''Connection failed on web1.example.com: timed out'' @ [CHR 0x0A])),
         (?b, 0, Some (''--- web2.example.com ---'' @ [CHR 0x0A]
                 @ ''up on web2.example.com'' @ [CHR 0x0A]))]"
    using c6 [OF hyps, THEN conjunct1] v by (simp add: newline_def)
  have r3: "parallel_execute ?g [] flaky_env [?a, ?b] initial_world
       = (Some DirectoryNotEmpty,
          \<lparr>connections = [?a, ?b],
            printed = [''--- web2.example.com ---'' @ [CHR 0x0A]
                         @ ''up on web2.example.com'' @ [CHR 0x0A, CHR 0x0A],
                       ''--- web1.example.com ---'' @ [CHR 0x0A]
                         @ ''Connection failed on web1.example.com: timed out''
                         @ [CHR 0x0A, CHR 0x0A]]\<rparr>)"
    by (simp add: parallel_execute_def r2 Let_def initial_world_def rmdir_def)
      (simp add: flaky_env_def example_env_def example_globals_def rmdir_def newline_def)
  show ?thesis
    by (intro conjI ca r1 r2 r3)
qed

end
